theory Spec2Isabelle
  imports Complex_Main
begin

section \<open>Python values used by the ticket automation\<close>

text \<open>
  The program is one Python module, \<^verbatim>\<open>main.py\<close>. Strings are modelled as
  \<^typ>\<open>string\<close>, one \<^typ>\<open>char\<close> per code point below 256. Exceptions are
  values: \<^verbatim>\<open>KeyboardInterrupt\<close> and \<^verbatim>\<open>SystemExit\<close> derive from
  \<^verbatim>\<open>BaseException\<close> only, so a handler \<^verbatim>\<open>except Exception\<close> lets them pass;
  every other exception the program meets is an \<^verbatim>\<open>Exception\<close> and carries the
  name of its class.
\<close>

datatype exn = KeyboardInterrupt | SystemExit | Exception string

fun is_Exception :: "exn \<Rightarrow> bool" where
  "is_Exception (Exception _) = True"
| "is_Exception _ = False"

subsection \<open>\<^verbatim>\<open>str.strip\<close> and \<^verbatim>\<open>str.startswith\<close>\<close>

text \<open>
  \<^verbatim>\<open>str.strip()\<close> without argument removes the characters for which
  \<^verbatim>\<open>str.isspace\<close> holds from both ends: below 256 these are the code points
  9 to 13, 28 to 32, 133 and 160.
\<close>

definition isspace :: "char \<Rightarrow> bool" where
  "isspace c =
     (let n = (of_char c :: nat)
      in (9 \<le> n \<and> n \<le> 13) \<or> (28 \<le> n \<and> n \<le> 32) \<or> n = 133 \<or> n = 160)"

definition strip :: "string \<Rightarrow> string" where
  "strip s = rev (dropWhile isspace (rev (dropWhile isspace s)))"

fun startswith :: "string \<Rightarrow> string \<Rightarrow> bool" where
  "startswith s [] = True"
| "startswith [] (p # ps) = False"
| "startswith (c # cs) (p # ps) = (c = p \<and> startswith cs ps)"

section \<open>\<^verbatim>\<open>DataManager.read_daily_input\<close>\<close>

text \<open>
  \<^verbatim>\<open>
  seen_codes = set()
  with open(file_path, mode='r', encoding='utf-8') as file:
      kode_dp_list = []
      for line in file:
          line = line.strip()
          if not line or line.startswith('#') or line in seen_codes: continue
          seen_codes.add(line)
          kode_dp_list.append(line)
  return kode_dp_list
  \<close>
  The loop state is the pair of \<^verbatim>\<open>seen_codes\<close> and \<^verbatim>\<open>kode_dp_list\<close>; the
  argument is the list of lines the file iterator yields.
\<close>

fun daily_loop :: "string list \<Rightarrow> string set \<times> string list \<Rightarrow> string set \<times> string list" where
  "daily_loop [] (seen_codes, kode_dp_list) = (seen_codes, kode_dp_list)"
| "daily_loop (raw # rest) (seen_codes, kode_dp_list) =
     (let line = strip raw
      in if line = [] \<or> startswith line ''#'' \<or> line \<in> seen_codes
         then daily_loop rest (seen_codes, kode_dp_list)
         else daily_loop rest (insert line seen_codes, kode_dp_list @ [line]))"

text \<open>
  Validating, opening and decoding the file may raise; the whole body sits in
  \<^verbatim>\<open>try ... except Exception: return []\<close>. The argument is what reading the file
  gives: the exception raised (at any point of the reading) or all its lines.
\<close>

definition read_daily_input :: "exn + string list \<Rightarrow> exn + string list" where
  "read_daily_input file =
     (case file of
        Inr lines \<Rightarrow> Inr (snd (daily_loop lines ({}, [])))
      | Inl e \<Rightarrow> if is_Exception e then Inr [] else Inl e)"

section \<open>The browser\<close>

subsection \<open>Values returned by \<^verbatim>\<open>execute_script\<close>\<close>

text \<open>
  \<^verbatim>\<open>driver.execute_script("return window.ticket_creation_response;")\<close> gives the
  page's value as a Python value: \<^verbatim>\<open>None\<close>, a bool, a number, a string, a list or
  a dict with string keys (an association list here, looked up with \<^const>\<open>map_of\<close>).
\<close>

datatype json =
    JNull
  | JBool bool
  | JNum rat
  | JStr string
  | JArr "json list"
  | JObj "(string \<times> json) list"

text \<open>Python truth value, as tested by \<^verbatim>\<open>if response:\<close>.\<close>

fun truthy :: "json \<Rightarrow> bool" where
  "truthy JNull = False"
| "truthy (JBool b) = b"
| "truthy (JNum n) = (n \<noteq> 0)"
| "truthy (JStr s) = (s \<noteq> [])"
| "truthy (JArr xs) = (xs \<noteq> [])"
| "truthy (JObj kvs) = (kvs \<noteq> [])"

subsection \<open>Selectors, outcomes, events\<close>

text \<open>The keys of \<^verbatim>\<open>config.SELECTORS\<close> that the workflow uses.\<close>

datatype selector =
    configuring_menu | dp_menu | city_input | rk_input | dp_input | filter_button
  | result_dp_code_cell | create_ticket_icon | final_create_button | confirm_create_button

text \<open>\<^verbatim>\<open>config.SELECTORS['no_data_message']\<close>, tried in this order.\<close>

definition no_data_message :: "string list" where
  "no_data_message =
     [''//td[contains(text(),'' @ [CHR 0x27] @ ''No data available in table'' @ [CHR 0x27] @ '')]'',
      ''//td[contains(text(),'' @ [CHR 0x27] @ ''No data'' @ [CHR 0x27] @ '')]'',
      ''.dataTables_empty'']"

text \<open>The strings returned by the per-record sequence and by the validator.\<close>

datatype outcome = SUCCESS | FAIL | TIMEOUT

datatype validation = MATCH | MISMATCH | NO_DATA | VALIDATION_FAILED

text \<open>
  What the bot did to the page, in order: a record kept by the model only, so that
  claims about the order of actions can be stated. Each event carries the arguments of
  the call and what the call returned.
\<close>

datatype event =
    EvDropdown selector string bool
  | EvLocate selector bool
  | EvClick selector bool
  | EvPageLoad bool
  | EvValidated string validation
  | EvClear
  | EvPoll nat "exn + json"
  | EvRefresh
  | EvInject

subsection \<open>The page as the bot sees it\<close>

text \<open>
  The browser is outside the program. Its state is a value of an arbitrary type
  \<^typ>\<open>'w\<close>, elements are handles of an arbitrary type \<^typ>\<open>'e\<close>, and each call of the
  program into the browser is a function from the state to an answer and a new state.
  The four methods of \<^verbatim>\<open>ElementHelper\<close> are such calls: their bodies only drive
  the browser, and each is wrapped in a bare \<^verbatim>\<open>except\<close>, so they return a value and
  no exception leaves them. The direct calls on the driver and on elements may raise.
  Reading the response slot also tells how many milliseconds the call took.
\<close>

record ('w, 'e) browser =
  handle_vue_select_dropdown :: "selector \<Rightarrow> string \<Rightarrow> 'w \<Rightarrow> bool \<times> 'w"
  wait_for_element :: "selector \<Rightarrow> 'w \<Rightarrow> 'e option \<times> 'w"
  safe_click :: "'e \<Rightarrow> 'w \<Rightarrow> bool \<times> 'w"
  wait_for_page_load :: "'w \<Rightarrow> bool \<times> 'w"
  find_element :: "string \<Rightarrow> 'w \<Rightarrow> (exn + 'e) \<times> 'w"
  is_displayed :: "'e \<Rightarrow> 'w \<Rightarrow> (exn + bool) \<times> 'w"
  element_text :: "'e \<Rightarrow> 'w \<Rightarrow> (exn + string) \<times> 'w"
  clear_response :: "'w \<Rightarrow> (exn + unit) \<times> 'w"
  read_response :: "'w \<Rightarrow> (nat \<times> (exn + json)) \<times> 'w"
  inject_script :: "'w \<Rightarrow> (exn + unit) \<times> 'w"
  driver_refresh :: "'w \<Rightarrow> (exn + unit) \<times> 'w"
  login :: "'w \<Rightarrow> (exn + bool) \<times> 'w"

text \<open>
  The state the bot runs in: the browser, the clock (\<^verbatim>\<open>time.time()\<close>, counted in
  milliseconds) and the record of events. \<^verbatim>\<open>time.sleep\<close> moves the clock.
\<close>

record 'w page =
  world :: 'w
  clock :: nat
  ui_log :: "event list"

definition emit :: "event \<Rightarrow> 'w page \<Rightarrow> 'w page" where
  "emit ev st = st\<lparr>ui_log := ui_log st @ [ev]\<rparr>"

definition sleep :: "nat \<Rightarrow> 'w page \<Rightarrow> 'w page" where
  "sleep ms st = st\<lparr>clock := clock st + ms\<rparr>"

section \<open>\<^verbatim>\<open>AutomationBot.check_ticket_creation_status\<close>\<close>

text \<open>
  \<^verbatim>\<open>
  start_time = time.time()
  end_time = start_time + timeout
  while time.time() < end_time:
      response = self.driver.execute_script("return window.ticket_creation_response;")
      if response:
          if response.get("code") == 200: return "SUCCESS"
          else: return "FAIL"
      time.sleep(0.5)
  return "TIMEOUT"
  \<close>
  \<^verbatim>\<open>response.get\<close> exists on a dict only: on any other non-empty value the
  attribute lookup raises \<^verbatim>\<open>AttributeError\<close>. A number equals \<^verbatim>\<open>200\<close> when its
  value is 200, whether Python holds it as \<^verbatim>\<open>int\<close> or \<^verbatim>\<open>float\<close>; a bool or a
  string never does.
\<close>

definition interpret_response :: "json \<Rightarrow> exn + outcome" where
  "interpret_response response =
     (case response of
        JObj kvs \<Rightarrow> if map_of kvs ''code'' = Some (JNum 200) then Inr SUCCESS else Inr FAIL
      | _ \<Rightarrow> Inl (Exception ''AttributeError''))"

function poll_loop :: "('w, 'e) browser \<Rightarrow> nat \<Rightarrow> 'w page \<Rightarrow> (exn + outcome) \<times> 'w page" where
  "poll_loop B end_time st =
     (if clock st < end_time then
        (case read_response B (world st) of
           ((took, answer), w) \<Rightarrow>
             (let st1 = emit (EvPoll (clock st) answer) (st\<lparr>world := w, clock := clock st + took\<rparr>)
              in case answer of
                   Inl e \<Rightarrow> (Inl e, st1)
                 | Inr response \<Rightarrow>
                     if truthy response then (interpret_response response, st1)
                     else poll_loop B end_time (sleep 500 st1)))
      else (Inr TIMEOUT, st))"
  by pat_completeness auto
termination
  by (relation "measure (\<lambda>(B, end_time, st). end_time - clock st)")
     (auto simp: sleep_def emit_def)

text \<open>The timeout is given in seconds, as in the source (default 120).\<close>

definition check_ticket_creation_status ::
  "('w, 'e) browser \<Rightarrow> nat \<Rightarrow> 'w page \<Rightarrow> (exn + outcome) \<times> 'w page" where
  "check_ticket_creation_status B timeout st = poll_loop B (clock st + 1000 * timeout) st"

section \<open>\<^verbatim>\<open>AutomationBot.inject_network_listener\<close>: the hook in the page\<close>

text \<open>
  The injected script wraps \<^verbatim>\<open>XMLHttpRequest.prototype.send\<close>; on the load of a
  request it runs
  \<^verbatim>\<open>
  if (this.responseURL && this.responseURL.includes('/project-management/configuring/dp/create-ticket')) {
      try { window.ticket_creation_response = JSON.parse(this.responseText); }
      catch (e) { window.ticket_creation_response = { error: 'JSON parse error', data: this.responseText }; }
  }
  \<close>
  \<^verbatim>\<open>JSON.parse\<close> belongs to the browser: it is a parameter, \<open>None\<close> where it throws.
  The function gives the new content of the slot from the old one.
\<close>

definition create_ticket_path :: string where
  "create_ticket_path = ''/project-management/configuring/dp/create-ticket''"

fun js_includes :: "string \<Rightarrow> string \<Rightarrow> bool" where
  "js_includes [] sub = (sub = [])"
| "js_includes (c # cs) sub = (startswith (c # cs) sub \<or> js_includes cs sub)"

definition parse_error_marker :: "string \<Rightarrow> json" where
  "parse_error_marker responseText =
     JObj [(''error'', JStr ''JSON parse error''), (''data'', JStr responseText)]"

definition xhr_on_load :: "(string \<Rightarrow> json option) \<Rightarrow> string \<Rightarrow> string \<Rightarrow> json \<Rightarrow> json" where
  "xhr_on_load JSON_parse responseURL responseText slot =
     (if responseURL \<noteq> [] \<and> js_includes responseURL create_ticket_path
      then (case JSON_parse responseText of
              Some v \<Rightarrow> v
            | None \<Rightarrow> parse_error_marker responseText)
      else slot)"

section \<open>\<^verbatim>\<open>AutomationBot.validate_filter_result\<close>\<close>

text \<open>
  \<^verbatim>\<open>
  for no_data_selector in config.SELECTORS['no_data_message']:
      try:
          by = By.XPATH if no_data_selector.startswith('//') else By.CSS_SELECTOR
          if self.driver.find_element(by, no_data_selector).is_displayed(): return False, "NO_DATA"
      except: continue
  \<close>
  The bare \<^verbatim>\<open>except\<close> swallows whatever the two calls raise.
\<close>

fun no_data_visible :: "('w, 'e) browser \<Rightarrow> string list \<Rightarrow> 'w \<Rightarrow> bool \<times> 'w" where
  "no_data_visible B [] w = (False, w)"
| "no_data_visible B (no_data_selector # rest) w =
     (case find_element B no_data_selector w of
        (Inl e, w1) \<Rightarrow> no_data_visible B rest w1
      | (Inr el, w1) \<Rightarrow>
          (case is_displayed B el w1 of
             (Inr True, w2) \<Rightarrow> (True, w2)
           | (Inr False, w2) \<Rightarrow> no_data_visible B rest w2
           | (Inl e, w2) \<Rightarrow> no_data_visible B rest w2))"

text \<open>
  \<^verbatim>\<open>
  for attempt in range(max_attempts):
      try:
          time.sleep(2)
          <the no-data check above>
          result_cell = self.helper.wait_for_element(config.SELECTORS['result_dp_code_cell'], timeout=10, clickable=False)
          if result_cell:
              result_dp_text = result_cell.text.strip()
              if result_dp_text == expected_kode_dp: return True, "MATCH"
              else: return False, "MISMATCH"
          else:
              if attempt < max_attempts - 1: time.sleep(1); continue
      except Exception:
          if attempt < max_attempts - 1: time.sleep(1)
  return False, "VALIDATION_FAILED"
  \<close>
  The loop runs over the attempt numbers still to come. Only \<^verbatim>\<open>result_cell.text\<close>
  can raise inside the \<^verbatim>\<open>try\<close>; an \<^verbatim>\<open>Exception\<close> goes to the next attempt,
  anything else leaves the function.
\<close>

definition pause_before_retry :: "nat \<Rightarrow> nat \<Rightarrow> 'w page \<Rightarrow> 'w page" where
  "pause_before_retry attempt max_attempts st =
     (if attempt + 1 < max_attempts then sleep 1000 st else st)"

fun validate_loop ::
  "('w, 'e) browser \<Rightarrow> string \<Rightarrow> nat \<Rightarrow> nat list \<Rightarrow> 'w page \<Rightarrow> (exn + validation) \<times> 'w page" where
  "validate_loop B expected_kode_dp max_attempts [] st = (Inr VALIDATION_FAILED, st)"
| "validate_loop B expected_kode_dp max_attempts (attempt # rest) st =
     (let st1 = sleep 2000 st
      in case no_data_visible B no_data_message (world st1) of
           (True, w1) \<Rightarrow> (Inr NO_DATA, st1\<lparr>world := w1\<rparr>)
         | (False, w1) \<Rightarrow>
             (case wait_for_element B result_dp_code_cell w1 of
                (Some result_cell, w2) \<Rightarrow>
                  (case element_text B result_cell w2 of
                     (Inr text, w3) \<Rightarrow>
                       (if strip text = expected_kode_dp
                        then (Inr MATCH, st1\<lparr>world := w3\<rparr>)
                        else (Inr MISMATCH, st1\<lparr>world := w3\<rparr>))
                   | (Inl e, w3) \<Rightarrow>
                       (if is_Exception e
                        then validate_loop B expected_kode_dp max_attempts rest
                               (pause_before_retry attempt max_attempts (st1\<lparr>world := w3\<rparr>))
                        else (Inl e, st1\<lparr>world := w3\<rparr>)))
              | (None, w2) \<Rightarrow>
                  validate_loop B expected_kode_dp max_attempts rest
                    (pause_before_retry attempt max_attempts (st1\<lparr>world := w2\<rparr>))))"

definition validate_filter_result ::
  "('w, 'e) browser \<Rightarrow> string \<Rightarrow> nat \<Rightarrow> 'w page \<Rightarrow> (exn + validation) \<times> 'w page" where
  "validate_filter_result B expected_kode_dp max_attempts st =
     validate_loop B expected_kode_dp max_attempts [0..<max_attempts] st"

section \<open>\<^verbatim>\<open>AutomationBot.process_ticket_creation\<close>\<close>

text \<open>The calls into \<^verbatim>\<open>ElementHelper\<close>, each noted in the record of events.\<close>

definition dropdown :: "('w, 'e) browser \<Rightarrow> selector \<Rightarrow> string \<Rightarrow> 'w page \<Rightarrow> bool \<times> 'w page" where
  "dropdown B key v st =
     (case handle_vue_select_dropdown B key v (world st) of
        (ok, w) \<Rightarrow> (ok, emit (EvDropdown key v ok) (st\<lparr>world := w\<rparr>)))"

definition locate :: "('w, 'e) browser \<Rightarrow> selector \<Rightarrow> 'w page \<Rightarrow> 'e option \<times> 'w page" where
  "locate B key st =
     (case wait_for_element B key (world st) of
        (found, w) \<Rightarrow> (found, emit (EvLocate key (found \<noteq> None)) (st\<lparr>world := w\<rparr>)))"

definition click :: "('w, 'e) browser \<Rightarrow> selector \<Rightarrow> 'e \<Rightarrow> 'w page \<Rightarrow> bool \<times> 'w page" where
  "click B key el st =
     (case safe_click B el (world st) of
        (ok, w) \<Rightarrow> (ok, emit (EvClick key ok) (st\<lparr>world := w\<rparr>)))"

definition page_load :: "('w, 'e) browser \<Rightarrow> 'w page \<Rightarrow> bool \<times> 'w page" where
  "page_load B st =
     (case wait_for_page_load B (world st) of
        (ok, w) \<Rightarrow> (ok, emit (EvPageLoad ok) (st\<lparr>world := w\<rparr>)))"

text \<open>
  \<^verbatim>\<open>
  if not self.helper.handle_vue_select_dropdown(config.SELECTORS['city_input'], city): return "FAIL"
  time.sleep(0.5)
  if not self.helper.handle_vue_select_dropdown(config.SELECTORS['rk_input'], rk): return "FAIL"
  time.sleep(0.5)
  if not self.helper.handle_vue_select_dropdown(config.SELECTORS['dp_input'], kode_dp_value): return "FAIL"
  time.sleep(1)
  filter_button = self.helper.wait_for_element(config.SELECTORS['filter_button'])
  if not filter_button: return "FAIL"
  \<close>
  The result is the filter button, or \<open>None\<close> where the source returns \<^verbatim>\<open>"FAIL"\<close>.
\<close>

definition select_filters ::
  "('w, 'e) browser \<Rightarrow> string \<Rightarrow> string \<Rightarrow> string \<Rightarrow> 'w page \<Rightarrow> 'e option \<times> 'w page" where
  "select_filters B city rk kode_dp_value st =
     (case dropdown B city_input city st of
        (False, st1) \<Rightarrow> (None, st1)
      | (True, st1) \<Rightarrow>
          (case dropdown B rk_input rk (sleep 500 st1) of
             (False, st2) \<Rightarrow> (None, st2)
           | (True, st2) \<Rightarrow>
               (case dropdown B dp_input kode_dp_value (sleep 500 st2) of
                  (False, st3) \<Rightarrow> (None, st3)
                | (True, st3) \<Rightarrow> locate B filter_button (sleep 1000 st3))))"

text \<open>
  \<^verbatim>\<open>
  validation_passed = False
  for filter_attempt in range(3):
      if not self.helper.safe_click(filter_button, "Filter button", use_js=True): continue
      self.helper.wait_for_page_load()
      validation_result, validation_status = self.validate_filter_result(kode_dp_value)
      if validation_status == "NO_DATA": return "FAIL"
      elif validation_status == "MATCH": validation_passed = True; break
      elif validation_status == "MISMATCH": time.sleep(1); continue
      else: time.sleep(1); continue
  if not validation_passed: return "FAIL"
  \<close>
  The loop ends in one of three ways: the \<^verbatim>\<open>return\<close> on \<^verbatim>\<open>NO_DATA\<close>, the
  \<^verbatim>\<open>break\<close> on \<^verbatim>\<open>MATCH\<close>, or the rounds run out.
\<close>

datatype filter_end = FilterNoData | FilterMatched | FilterExhausted

fun filter_loop ::
  "('w, 'e) browser \<Rightarrow> string \<Rightarrow> 'e \<Rightarrow> nat \<Rightarrow> 'w page \<Rightarrow> (exn + filter_end) \<times> 'w page" where
  "filter_loop B kode_dp_value button 0 st = (Inr FilterExhausted, st)"
| "filter_loop B kode_dp_value button (Suc rounds) st =
     (case click B filter_button button st of
        (False, st1) \<Rightarrow> filter_loop B kode_dp_value button rounds st1
      | (True, st1) \<Rightarrow>
          (case validate_filter_result B kode_dp_value 3 (snd (page_load B st1)) of
             (Inl e, st3) \<Rightarrow> (Inl e, st3)
           | (Inr validation_status, st3) \<Rightarrow>
               (let st4 = emit (EvValidated kode_dp_value validation_status) st3
                in case validation_status of
                     NO_DATA \<Rightarrow> (Inr FilterNoData, st4)
                   | MATCH \<Rightarrow> (Inr FilterMatched, st4)
                   | MISMATCH \<Rightarrow> filter_loop B kode_dp_value button rounds (sleep 1000 st4)
                   | VALIDATION_FAILED \<Rightarrow> filter_loop B kode_dp_value button rounds (sleep 1000 st4))))"

text \<open>
  \<^verbatim>\<open>
  create_ticket_icon = self.helper.wait_for_element(config.SELECTORS['create_ticket_icon'])
  if not create_ticket_icon or not self.helper.safe_click(create_ticket_icon, ...): return "FAIL"
  self.helper.wait_for_page_load(); time.sleep(2)
  final_create_button = self.helper.wait_for_element(config.SELECTORS['final_create_button'])
  if not final_create_button or not self.helper.safe_click(final_create_button, ...): return "FAIL"
  time.sleep(1)
  self.driver.execute_script("window.ticket_creation_response = null;")
  confirm_button = self.helper.wait_for_element(config.SELECTORS['confirm_create_button'])
  if not confirm_button or not self.helper.safe_click(confirm_button, ...): return "FAIL"
  return self.check_ticket_creation_status()
  \<close>
\<close>

definition locate_and_click :: "('w, 'e) browser \<Rightarrow> selector \<Rightarrow> 'w page \<Rightarrow> bool \<times> 'w page" where
  "locate_and_click B key st =
     (case locate B key st of
        (None, st1) \<Rightarrow> (False, st1)
      | (Some el, st1) \<Rightarrow> click B key el st1)"

definition clear_slot :: "('w, 'e) browser \<Rightarrow> 'w page \<Rightarrow> (exn + unit) \<times> 'w page" where
  "clear_slot B st =
     (case clear_response B (world st) of
        (r, w) \<Rightarrow> (r, emit EvClear (st\<lparr>world := w\<rparr>)))"

definition confirm_and_wait :: "('w, 'e) browser \<Rightarrow> 'w page \<Rightarrow> (exn + outcome) \<times> 'w page" where
  "confirm_and_wait B st =
     (case clear_slot B (sleep 1000 st) of
        (Inl e, st1) \<Rightarrow> (Inl e, st1)
      | (Inr u, st1) \<Rightarrow>
          (case locate_and_click B confirm_create_button st1 of
             (False, st2) \<Rightarrow> (Inr FAIL, st2)
           | (True, st2) \<Rightarrow> check_ticket_creation_status B 120 st2))"

definition create_ticket :: "('w, 'e) browser \<Rightarrow> 'w page \<Rightarrow> (exn + outcome) \<times> 'w page" where
  "create_ticket B st =
     (case locate_and_click B create_ticket_icon st of
        (False, st1) \<Rightarrow> (Inr FAIL, st1)
      | (True, st1) \<Rightarrow>
          (case locate_and_click B final_create_button (sleep 2000 (snd (page_load B st1))) of
             (False, st2) \<Rightarrow> (Inr FAIL, st2)
           | (True, st2) \<Rightarrow> confirm_and_wait B st2))"

text \<open>The body of the \<^verbatim>\<open>try\<close>.\<close>

definition ticket_steps ::
  "('w, 'e) browser \<Rightarrow> string \<Rightarrow> string \<Rightarrow> string \<Rightarrow> 'w page \<Rightarrow> (exn + outcome) \<times> 'w page" where
  "ticket_steps B city rk kode_dp_value st =
     (case select_filters B city rk kode_dp_value st of
        (None, st1) \<Rightarrow> (Inr FAIL, st1)
      | (Some button, st1) \<Rightarrow>
          (case filter_loop B kode_dp_value button 3 st1 of
             (Inl e, st2) \<Rightarrow> (Inl e, st2)
           | (Inr FilterNoData, st2) \<Rightarrow> (Inr FAIL, st2)
           | (Inr FilterExhausted, st2) \<Rightarrow> (Inr FAIL, st2)
           | (Inr FilterMatched, st2) \<Rightarrow> create_ticket B st2))"

text \<open>\<^verbatim>\<open>except Exception as e: ...; return "FAIL"\<close>\<close>

definition process_ticket_creation ::
  "('w, 'e) browser \<Rightarrow> string \<Rightarrow> string \<Rightarrow> string \<Rightarrow> 'w page \<Rightarrow> (exn + outcome) \<times> 'w page" where
  "process_ticket_creation B city rk kode_dp_value st =
     (case ticket_steps B city rk kode_dp_value st of
        (Inl e, st1) \<Rightarrow> if is_Exception e then (Inr FAIL, st1) else (Inl e, st1)
      | (Inr result, st1) \<Rightarrow> (Inr result, st1))"

section \<open>Navigation and recovery\<close>

text \<open>
  \<^verbatim>\<open>config\<close>: the two settings the orchestrator reads, both \<^verbatim>\<open>int(os.getenv(...))\<close>,
  so any integer. \<^verbatim>\<open>time.sleep\<close> of a negative number raises \<^verbatim>\<open>ValueError\<close>.
\<close>

record config =
  MAX_RETRIES :: int
  RETRY_DELAY :: int

definition sleep_seconds :: "int \<Rightarrow> 'w page \<Rightarrow> exn + 'w page" where
  "sleep_seconds secs st =
     (if secs < 0 then Inl (Exception ''ValueError'') else Inr (sleep (1000 * nat secs) st))"

text \<open>
  \<^verbatim>\<open>inject_network_listener\<close>: \<^verbatim>\<open>try: self.driver.execute_script(script)\<close>
  \<^verbatim>\<open>except Exception as e: logger.error(...)\<close>.
\<close>

definition inject_network_listener :: "('w, 'e) browser \<Rightarrow> 'w page \<Rightarrow> (exn + unit) \<times> 'w page" where
  "inject_network_listener B st =
     (case inject_script B (world st) of
        (r, w) \<Rightarrow>
          (let st1 = emit EvInject (st\<lparr>world := w\<rparr>)
           in case r of
                Inl e \<Rightarrow> if is_Exception e then (Inr (), st1) else (Inl e, st1)
              | Inr u \<Rightarrow> (Inr (), st1)))"

text \<open>
  \<^verbatim>\<open>
  configuring_menu = self.helper.wait_for_element(config.SELECTORS['configuring_menu'])
  if not configuring_menu or not self.helper.safe_click(configuring_menu, ...): return False
  time.sleep(2)
  dp_menu = self.helper.wait_for_element(config.SELECTORS['dp_menu'])
  if not dp_menu or not self.helper.safe_click(dp_menu, ...): return False
  if not self.helper.wait_for_page_load(timeout=config.LONG_TIMEOUT): logger.warning(...)
  city_input = self.helper.wait_for_element(config.SELECTORS['city_input'], timeout=5)
  if city_input:
      self.inject_network_listener()
      return True
  else: return False
  \<close>
\<close>

definition navigate_to_dp_menu :: "('w, 'e) browser \<Rightarrow> 'w page \<Rightarrow> (exn + bool) \<times> 'w page" where
  "navigate_to_dp_menu B st =
     (case locate_and_click B configuring_menu st of
        (False, st1) \<Rightarrow> (Inr False, st1)
      | (True, st1) \<Rightarrow>
          (case locate_and_click B dp_menu (sleep 2000 st1) of
             (False, st2) \<Rightarrow> (Inr False, st2)
           | (True, st2) \<Rightarrow>
               (case locate B city_input (snd (page_load B st2)) of
                  (None, st3) \<Rightarrow> (Inr False, st3)
                | (Some el, st3) \<Rightarrow>
                    (case inject_network_listener B st3 of
                       (Inl e, st4) \<Rightarrow> (Inl e, st4)
                     | (Inr u, st4) \<Rightarrow> (Inr True, st4)))))"

text \<open>
  \<^verbatim>\<open>
  try:
      self.driver.refresh()
      time.sleep(config.RETRY_DELAY)
      self.helper.wait_for_page_load(timeout=config.LONG_TIMEOUT)
      return self.navigate_to_dp_menu()
  except Exception as e:
      logger.error(...); return False
  \<close>
\<close>

definition refresh_page :: "('w, 'e) browser \<Rightarrow> 'w page \<Rightarrow> (exn + unit) \<times> 'w page" where
  "refresh_page B st =
     (case driver_refresh B (world st) of
        (r, w) \<Rightarrow> (r, emit EvRefresh (st\<lparr>world := w\<rparr>)))"

definition handle_page_refresh_and_navigation ::
  "('w, 'e) browser \<Rightarrow> config \<Rightarrow> 'w page \<Rightarrow> (exn + bool) \<times> 'w page" where
  "handle_page_refresh_and_navigation B cfg st =
     (case refresh_page B st of
        (Inl e, st1) \<Rightarrow> if is_Exception e then (Inr False, st1) else (Inl e, st1)
      | (Inr u, st1) \<Rightarrow>
          (case sleep_seconds (RETRY_DELAY cfg) st1 of
             Inl e \<Rightarrow> (Inr False, st1)
           | Inr st2 \<Rightarrow> navigate_to_dp_menu B (snd (page_load B st2))))"

section \<open>\<^verbatim>\<open>AutomationBot.run_automation\<close>\<close>

text \<open>
  The bot's own state: \<^verbatim>\<open>self.processed_dps\<close>, the three counters of
  \<^verbatim>\<open>self.stats\<close>, and a journal of what the orchestrator did (kept by the model
  only): each call of the per-record sequence with the code and the result, each call of
  the recovery with its result, the log line \<^verbatim>\<open>Process interrupted by user\<close>, and
  the line of the final report.
\<close>

datatype run_event =
    Attempted string outcome
  | Recovered string bool
  | Interrupted
  | Reported nat nat nat nat

record bot =
  processed_dps :: "string set"
  successful :: nat
  failed :: nat
  skipped :: nat
  journal :: "run_event list"

text \<open>
  \<^verbatim>\<open>__init__\<close>: \<^verbatim>\<open>self.processed_dps = set()\<close>,
  \<^verbatim>\<open>self.stats = {'successful': 0, 'failed': 0, 'skipped': 0, ...}\<close>.
\<close>

definition new_bot :: bot where
  "new_bot = \<lparr> processed_dps = {}, successful = 0, failed = 0, skipped = 0, journal = [] \<rparr>"

text \<open>A row of the reference table, as \<^verbatim>\<open>load_master_data\<close> stores it.\<close>

record entry =
  City :: string
  RK :: string
  row_number :: nat

type_synonym master_data = "(string \<times> entry) list"

text \<open>
  \<^verbatim>\<open>
  final_status = "FAIL"
  for attempt in range(config.MAX_RETRIES):
      try:
          result = self.process_ticket_creation(city, rk, kode_dp_value)
          if result == "SUCCESS":
              final_status = "SUCCESS"
              break
          if result == "TIMEOUT":
              final_status = "TIMEOUT"
              break
          if attempt < config.MAX_RETRIES - 1:
              if not self.handle_page_refresh_and_navigation(): break
              time.sleep(config.RETRY_DELAY)
      except Exception as e:
          if attempt < config.MAX_RETRIES - 1: time.sleep(config.RETRY_DELAY)
  \<close>
  The handler: an \<^verbatim>\<open>Exception\<close> is logged and the loop goes on after the pause (the
  pause itself may raise, out of the handler); anything else is not caught.
\<close>

definition on_attempt_error :: "config \<Rightarrow> nat \<Rightarrow> exn \<Rightarrow> 'w page \<Rightarrow> exn + 'w page" where
  "on_attempt_error cfg attempt e st =
     (if is_Exception e
      then (if int attempt < MAX_RETRIES cfg - 1 then sleep_seconds (RETRY_DELAY cfg) st else Inr st)
      else Inl e)"

fun retry_loop ::
  "('w, 'e) browser \<Rightarrow> config \<Rightarrow> entry \<Rightarrow> string \<Rightarrow> nat list \<Rightarrow> run_event list \<Rightarrow> 'w page
     \<Rightarrow> (exn + outcome) \<times> run_event list \<times> 'w page" where
  "retry_loop B cfg data kode_dp_value [] jr st = (Inr FAIL, jr, st)"
| "retry_loop B cfg data kode_dp_value (attempt # rest) jr st =
     (case process_ticket_creation B (City data) (RK data) kode_dp_value st of
        (Inl e, st1) \<Rightarrow>
          (case on_attempt_error cfg attempt e st1 of
             Inl e' \<Rightarrow> (Inl e', jr, st1)
           | Inr st2 \<Rightarrow> retry_loop B cfg data kode_dp_value rest jr st2)
      | (Inr SUCCESS, st1) \<Rightarrow> (Inr SUCCESS, jr @ [Attempted kode_dp_value SUCCESS], st1)
      | (Inr TIMEOUT, st1) \<Rightarrow> (Inr TIMEOUT, jr @ [Attempted kode_dp_value TIMEOUT], st1)
      | (Inr FAIL, st1) \<Rightarrow>
          (let jr1 = jr @ [Attempted kode_dp_value FAIL]
           in if int attempt < MAX_RETRIES cfg - 1
              then (case handle_page_refresh_and_navigation B cfg st1 of
                      (Inl e, st2) \<Rightarrow>
                        (case on_attempt_error cfg attempt e st2 of
                           Inl e' \<Rightarrow> (Inl e', jr1, st2)
                         | Inr st3 \<Rightarrow> retry_loop B cfg data kode_dp_value rest jr1 st3)
                    | (Inr False, st2) \<Rightarrow> (Inr FAIL, jr1 @ [Recovered kode_dp_value False], st2)
                    | (Inr True, st2) \<Rightarrow>
                        (case sleep_seconds (RETRY_DELAY cfg) st2 of
                           Inl e \<Rightarrow>
                             (case on_attempt_error cfg attempt e st2 of
                                Inl e' \<Rightarrow> (Inl e', jr1 @ [Recovered kode_dp_value True], st2)
                              | Inr st3 \<Rightarrow>
                                  retry_loop B cfg data kode_dp_value rest
                                    (jr1 @ [Recovered kode_dp_value True]) st3)
                         | Inr st3 \<Rightarrow>
                             retry_loop B cfg data kode_dp_value rest
                               (jr1 @ [Recovered kode_dp_value True]) st3))
              else retry_loop B cfg data kode_dp_value rest jr1 st1))"

text \<open>
  One round of the loop over the work list:
  \<^verbatim>\<open>
  try:
      if kode_dp_value in self.processed_dps:
          ...; self.stats['skipped'] += 1; continue
      if kode_dp_value not in master_data:
          ...; self.stats['skipped'] += 1; continue
      data = master_data[kode_dp_value]
      city, rk = data['City'], data['RK']
      <the retry loop>
      if final_status == "SUCCESS":
          self.processed_dps.add(kode_dp_value); self.stats['successful'] += 1
      elif final_status == "TIMEOUT":
          self.stats['skipped'] += 1
      else:
          self.stats['failed'] += 1
      time.sleep(1)
  except KeyboardInterrupt:
      logger.info("Process interrupted by user"); break
  except Exception as e:
      ...; self.stats['failed'] += 1
  \<close>
  A round ends by going on with the next code, by the \<^verbatim>\<open>break\<close>, or with an
  exception that no handler of the loop catches.
\<close>

datatype signal = Continue | Break | Raise exn

definition process_item ::
  "('w, 'e) browser \<Rightarrow> config \<Rightarrow> master_data \<Rightarrow> string \<Rightarrow> bot \<times> 'w page \<Rightarrow> signal \<times> bot \<times> 'w page" where
  "process_item B cfg master kode_dp_value s =
     (case s of (bt, st) \<Rightarrow>
        if kode_dp_value \<in> processed_dps bt then (Continue, bt\<lparr>skipped := skipped bt + 1\<rparr>, st)
        else (case map_of master kode_dp_value of
                None \<Rightarrow> (Continue, bt\<lparr>skipped := skipped bt + 1\<rparr>, st)
              | Some data \<Rightarrow>
                  (case retry_loop B cfg data kode_dp_value [0..<nat (MAX_RETRIES cfg)] (journal bt) st of
                     (Inr SUCCESS, jr, st1) \<Rightarrow>
                       (Continue,
                        bt\<lparr>processed_dps := insert kode_dp_value (processed_dps bt),
                           successful := successful bt + 1, journal := jr\<rparr>,
                        sleep 1000 st1)
                   | (Inr TIMEOUT, jr, st1) \<Rightarrow>
                       (Continue, bt\<lparr>skipped := skipped bt + 1, journal := jr\<rparr>, sleep 1000 st1)
                   | (Inr FAIL, jr, st1) \<Rightarrow>
                       (Continue, bt\<lparr>failed := failed bt + 1, journal := jr\<rparr>, sleep 1000 st1)
                   | (Inl KeyboardInterrupt, jr, st1) \<Rightarrow>
                       (Break, bt\<lparr>journal := jr @ [Interrupted]\<rparr>, st1)
                   | (Inl SystemExit, jr, st1) \<Rightarrow> (Raise SystemExit, bt\<lparr>journal := jr\<rparr>, st1)
                   | (Inl (Exception name), jr, st1) \<Rightarrow>
                       (Continue, bt\<lparr>failed := failed bt + 1, journal := jr\<rparr>, st1))))"

text \<open>\<^verbatim>\<open>for index, kode_dp_value in enumerate(kode_dp_list, 1): ...\<close>\<close>

fun run_items ::
  "('w, 'e) browser \<Rightarrow> config \<Rightarrow> master_data \<Rightarrow> string list \<Rightarrow> bot \<times> 'w page
     \<Rightarrow> (exn + unit) \<times> bot \<times> 'w page" where
  "run_items B cfg master [] s = (Inr (), s)"
| "run_items B cfg master (kode_dp_value # rest) s =
     (case process_item B cfg master kode_dp_value s of
        (Continue, s1) \<Rightarrow> run_items B cfg master rest s1
      | (Break, s1) \<Rightarrow> (Inr (), s1)
      | (Raise e, s1) \<Rightarrow> (Inl e, s1))"

text \<open>
  \<^verbatim>\<open>generate_final_report(total_items)\<close> logs the line
  \<^verbatim>\<open>Total: ... | Successful: ... | Failed: ... | Skipped: ...\<close> and two rates; its
  body is in a \<^verbatim>\<open>try\<close> that catches every \<^verbatim>\<open>Exception\<close>, and it changes no
  counter. The journal keeps the four numbers of the line.
\<close>

definition generate_final_report :: "nat \<Rightarrow> bot \<Rightarrow> bot" where
  "generate_final_report total_items bt =
     bt\<lparr>journal := journal bt @ [Reported total_items (successful bt) (failed bt) (skipped bt)]\<rparr>"

text \<open>
  \<^verbatim>\<open>
  master_data = DataManager.load_master_data()
  if not master_data: return False
  kode_dp_list = DataManager.read_daily_input()
  if not kode_dp_list: return False
  if not self.login(): return False
  if not self.navigate_to_dp_menu(): return False
  self.processed_dps.clear()
  total_items = len(kode_dp_list)
  <the loop over the work list>
  self.generate_final_report(total_items)
  return True
  \<close>
  inside \<^verbatim>\<open>try ... except Exception: return False\<close>. The reference table is given as
  \<^verbatim>\<open>load_master_data\<close> returned it (\<open>None\<close> for \<^verbatim>\<open>None\<close>), the work list as the
  outcome of reading the file.
\<close>

definition catch_fatal :: "exn \<Rightarrow> bot \<times> 'w page \<Rightarrow> (exn + bool) \<times> bot \<times> 'w page" where
  "catch_fatal e s = (if is_Exception e then (Inr False, s) else (Inl e, s))"

definition run_automation ::
  "('w, 'e) browser \<Rightarrow> config \<Rightarrow> master_data option \<Rightarrow> exn + string list \<Rightarrow> bot \<times> 'w page
     \<Rightarrow> (exn + bool) \<times> bot \<times> 'w page" where
  "run_automation B cfg loaded file s =
     (case s of (bt, st) \<Rightarrow>
        (case loaded of
           None \<Rightarrow> (Inr False, s)
         | Some master \<Rightarrow>
             if master = [] then (Inr False, s)
             else (case read_daily_input file of
                     Inl e \<Rightarrow> catch_fatal e s
                   | Inr kode_dp_list \<Rightarrow>
                       if kode_dp_list = [] then (Inr False, s)
                       else (case login B (world st) of
                               (Inl e, w1) \<Rightarrow> catch_fatal e (bt, st\<lparr>world := w1\<rparr>)
                             | (Inr False, w1) \<Rightarrow> (Inr False, bt, st\<lparr>world := w1\<rparr>)
                             | (Inr True, w1) \<Rightarrow>
                                 (case navigate_to_dp_menu B (st\<lparr>world := w1\<rparr>) of
                                    (Inl e, st2) \<Rightarrow> catch_fatal e (bt, st2)
                                  | (Inr False, st2) \<Rightarrow> (Inr False, bt, st2)
                                  | (Inr True, st2) \<Rightarrow>
                                      (case run_items B cfg master kode_dp_list
                                              (bt\<lparr>processed_dps := {}\<rparr>, st2) of
                                         (Inl e, s3) \<Rightarrow> catch_fatal e s3
                                       | (Inr u, bt3, st3) \<Rightarrow>
                                           (Inr True,
                                            generate_final_report (length kode_dp_list) bt3,
                                            st3)))))))"

section \<open>Notions used in the statements\<close>

text \<open>The code lines of a file: stripped, not empty, not a comment.\<close>

definition is_code_line :: "string \<Rightarrow> bool" where
  "is_code_line l = (l \<noteq> [] \<and> \<not> startswith l ''#'')"

text \<open>
  An answer of the slot that the status check passes over: the Python values that are
  false in \<^verbatim>\<open>if response:\<close> (\<^verbatim>\<open>None\<close>, \<^verbatim>\<open>False\<close>, zero, and the empty string,
  list and dict). An exception of the driver is not an answer.
\<close>

fun empty_answer :: "exn + json \<Rightarrow> bool" where
  "empty_answer (Inl e) = False"
| "empty_answer (Inr JNull) = True"
| "empty_answer (Inr (JBool b)) = (\<not> b)"
| "empty_answer (Inr (JNum n)) = (n = 0)"
| "empty_answer (Inr (JStr s)) = (s = [])"
| "empty_answer (Inr (JArr xs)) = (xs = [])"
| "empty_answer (Inr (JObj kvs)) = (kvs = [])"

text \<open>
  The reads of the slot by a check that begins in world \<open>w\<close> at time \<open>t\<close>, for as long
  as no answer ends it: read \<open>k\<close> (counted from 0) is what \<^verbatim>\<open>execute_script\<close> returns
  in the world the reads before it have left, and it is made half a second after the
  read before it has returned. \<open>slot_read B w t k\<close> is the time of read \<open>k\<close> and its answer.
\<close>

fun slot_read :: "('w, 'e) browser \<Rightarrow> 'w \<Rightarrow> nat \<Rightarrow> nat \<Rightarrow> nat \<times> (exn + json)" where
  "slot_read B w t 0 = (t, snd (fst (read_response B w)))"
| "slot_read B w t (Suc k) =
     (case read_response B w of ((took, answer), w') \<Rightarrow> slot_read B w' (t + took + 500) k)"

subsection \<open>A scripted browser, for running the model\<close>

text \<open>
  A browser whose answers are fixed in advance: whether the dropdowns work, the results
  of the successive clicks (a click beyond the script succeeds), and the duration and
  result of the successive reads of the response slot since it was last cleared (beyond
  the script a read takes a minute and finds the slot empty). Every element is found,
  no "no data" indicator exists, and the result cell reads \<open>DP001\<close>.
\<close>

record demo_world =
  reads :: nat
  clicks :: nat

definition scripted_browser ::
  "bool \<Rightarrow> bool list \<Rightarrow> (nat \<times> (exn + json)) list \<Rightarrow> (demo_world, unit) browser" where
  "scripted_browser dropdown_ok click_script poll_script =
     \<lparr> handle_vue_select_dropdown = (\<lambda>key v w. (dropdown_ok, w)),
       wait_for_element = (\<lambda>key w. (Some (), w)),
       safe_click = (\<lambda>el w. (if clicks w < length click_script then click_script ! clicks w else True,
                              w\<lparr>clicks := Suc (clicks w)\<rparr>)),
       wait_for_page_load = (\<lambda>w. (True, w)),
       find_element = (\<lambda>sel w. (Inl (Exception ''NoSuchElementException''), w)),
       is_displayed = (\<lambda>el w. (Inr False, w)),
       element_text = (\<lambda>el w. (Inr ''DP001'', w)),
       clear_response = (\<lambda>w. (Inr (), w\<lparr>reads := 0\<rparr>)),
       read_response = (\<lambda>w. (if reads w < length poll_script then poll_script ! reads w
                               else (60000, Inr JNull),
                              w\<lparr>reads := Suc (reads w)\<rparr>)),
       inject_script = (\<lambda>w. (Inr (), w)),
       driver_refresh = (\<lambda>w. (Inr (), w)),
       login = (\<lambda>w. (Inr True, w)) \<rparr>"

definition fresh_page :: "demo_world page" where
  "fresh_page = \<lparr> world = \<lparr>reads = 0, clicks = 0\<rparr>, clock = 0, ui_log = [] \<rparr>"

text \<open>
  Two variants: one whose result cell reads \<open>DP001\<close> followed by a space, one that shows
  a "no data" indicator.
\<close>

definition padded_cell_browser :: "(demo_world, unit) browser" where
  "padded_cell_browser =
     (scripted_browser True [] [])\<lparr>element_text := (\<lambda>el w. (Inr ''DP001 '', w))\<rparr>"

definition no_data_browser :: "(demo_world, unit) browser" where
  "no_data_browser =
     (scripted_browser True [] [])\<lparr>find_element := (\<lambda>sel w. (Inr (), w)),
                                   is_displayed := (\<lambda>el w. (Inr True, w))\<rparr>"

text \<open>
  A configuration with three attempts per code and a pause of one second, and a
  reference table with the single code \<open>DP001\<close>.
\<close>

definition demo_config :: config where
  "demo_config = \<lparr> MAX_RETRIES = 3, RETRY_DELAY = 1 \<rparr>"

definition demo_master :: master_data where
  "demo_master = [(''DP001'', \<lparr> City = ''Jakarta'', RK = ''RK01'', row_number = 2 \<rparr>)]"

text \<open>
  What one run of the retry loop for the code \<open>c\<close> adds to the journal, given its result
  and the page it leaves: attempts that returned \<open>FAIL\<close> and recoveries that succeeded,
  and then either the attempt that returned \<open>SUCCESS\<close> or \<open>TIMEOUT\<close> and left that page,
  or a recovery that failed, or nothing more.
\<close>

definition loop_trace ::
  "('w, 'e) browser \<Rightarrow> entry \<Rightarrow> string \<Rightarrow> exn + outcome \<Rightarrow> 'w page \<Rightarrow> run_event list \<Rightarrow> bool" where
  "loop_trace B data c res st' evs =
     (\<exists>pre fin. evs = pre @ fin \<and> set pre \<subseteq> {Attempted c FAIL, Recovered c True} \<and>
        (fin = [Attempted c SUCCESS] \<and> res = Inr SUCCESS \<and>
           (\<exists>s. process_ticket_creation B (City data) (RK data) c s = (Inr SUCCESS, st'))
         \<or> fin = [Attempted c TIMEOUT] \<and> res = Inr TIMEOUT \<and>
           (\<exists>s. process_ticket_creation B (City data) (RK data) c s = (Inr TIMEOUT, st'))
         \<or> fin = [Recovered c False] \<and> res = Inr FAIL
         \<or> fin = [] \<and> res \<noteq> Inr SUCCESS \<and> res \<noteq> Inr TIMEOUT))"


section \<open>Properties of the work list\<close>

lemma daily_loop_result:
  "seen = set acc \<Longrightarrow> distinct acc \<Longrightarrow>
   snd (daily_loop ls (seen, acc)) =
     acc @ rev (remdups (rev (filter (\<lambda>l. l \<notin> set acc) (filter is_code_line (map strip ls)))))"
proof (induction ls arbitrary: seen acc)
  case Nil
  then show ?case by simp
next
  case (Cons raw rest)
  let ?l = "strip raw"
  show ?case
  proof (cases "?l = [] \<or> startswith ?l ''#'' \<or> ?l \<in> seen")
    case True
    then have "daily_loop (raw # rest) (seen, acc) = daily_loop rest (seen, acc)"
      by (simp add: Let_def)
    moreover from True Cons.prems(1)
    have "filter (\<lambda>l. l \<notin> set acc) (filter is_code_line (map strip (raw # rest))) =
          filter (\<lambda>l. l \<notin> set acc) (filter is_code_line (map strip rest))"
      by (auto simp: is_code_line_def)
    ultimately show ?thesis
      using Cons.IH [OF Cons.prems] by simp
  next
    case False
    then have step: "daily_loop (raw # rest) (seen, acc) =
                     daily_loop rest (insert ?l seen, acc @ [?l])"
      by (simp add: Let_def)
    from False Cons.prems have fresh: "?l \<notin> set acc" and code: "is_code_line ?l"
      by (auto simp: is_code_line_def)
    have seen': "insert ?l seen = set (acc @ [?l])"
      using Cons.prems(1) by auto
    have dist': "distinct (acc @ [?l])"
      using Cons.prems(2) fresh by simp
    let ?ys = "filter is_code_line (map strip rest)"
    have split: "filter (\<lambda>l. l \<notin> set acc) (filter is_code_line (map strip (raw # rest))) =
                 ?l # filter (\<lambda>l. l \<notin> set acc) ?ys"
      using fresh code by simp
    have keep_first: "rev (remdups (rev (?l # zs))) = ?l # rev (remdups (rev (filter (\<lambda>l. l \<noteq> ?l) zs)))" for zs
    proof -
      have "remdups (ws @ [?l]) = remdups (filter (\<lambda>l. l \<noteq> ?l) ws) @ [?l]" for ws
        by (induction ws) auto
      from this [of "rev zs"] show ?thesis
        by (simp add: rev_filter)
    qed
    have "filter (\<lambda>l. l \<noteq> ?l) (filter (\<lambda>l. l \<notin> set acc) ?ys) =
          filter (\<lambda>l. l \<notin> set (acc @ [?l])) ?ys"
      by (induction rest) auto
    with keep_first [of "filter (\<lambda>l. l \<notin> set acc) ?ys"] split
    have "acc @ rev (remdups (rev (filter (\<lambda>l. l \<notin> set acc) (filter is_code_line (map strip (raw # rest)))))) =
          (acc @ [?l]) @ rev (remdups (rev (filter (\<lambda>l. l \<notin> set (acc @ [?l])) ?ys)))"
      by simp
    with Cons.IH [OF seen' dist'] step show ?thesis
      by simp
  qed
qed

text \<open>
  Claim C9. Reading the daily work list returns the stripped lines of the file that are
  neither empty nor comments, each code once, at the place of its first occurrence
  (\<open>remdups\<close> keeps the last occurrence of an element, so between two reversals it
  keeps the first); the returned list has no duplicate.
\<close>

theorem read_daily_input_first_seen:
  "read_daily_input (Inr lines) =
     Inr (rev (remdups (rev (filter is_code_line (map strip lines)))))
   \<and> (\<exists>codes. read_daily_input (Inr lines) = Inr codes \<and> distinct codes
        \<and> set codes = {l. is_code_line l \<and> l \<in> strip ` set lines})"
proof -
  have eq: "read_daily_input (Inr lines) =
            Inr (rev (remdups (rev (filter is_code_line (map strip lines)))))"
    using daily_loop_result [of "{}" "[]" lines] by (simp add: read_daily_input_def)
  moreover have "distinct (rev (remdups (rev (filter is_code_line (map strip lines)))))"
    by simp
  moreover have "set (rev (remdups (rev (filter is_code_line (map strip lines))))) =
                 {l. is_code_line l \<and> l \<in> strip ` set lines}"
    by auto
  ultimately show ?thesis by simp
qed

section \<open>Properties of the status check\<close>

lemma empty_answer_truthy:
  "empty_answer a = (case a of Inl e \<Rightarrow> False | Inr r \<Rightarrow> \<not> truthy r)"
  by (cases a rule: empty_answer.cases) simp_all

lemma slot_read_time: "t + 500 * k \<le> fst (slot_read B w t k)"
proof (induction k arbitrary: w t)
  case 0
  then show ?case by simp
next
  case (Suc k)
  obtain took answer w' where rd: "read_response B w = ((took, answer), w')"
    by (metis surj_pair)
  from Suc [of "t + took + 500" w'] rd show ?case by simp
qed

lemma poll_loop_reads:
  "poll_loop B e st = (res, st') \<Longrightarrow>
   \<exists>n. ui_log st' =
         ui_log st @ map (\<lambda>k. case_prod EvPoll (slot_read B (world st) (clock st) k)) [0..<n]
     \<and> (\<forall>k<n. fst (slot_read B (world st) (clock st) k) < e)
     \<and> (res = Inr TIMEOUT \<longrightarrow> e \<le> clock st')"
proof (induction B e st arbitrary: res st' rule: poll_loop.induct)
  case (1 B e st)
  show ?case
  proof (cases "clock st < e")
    case False
    with "1.prems" have "res = Inr TIMEOUT" "st' = st" by simp_all
    with False show ?thesis by (intro exI [of _ 0]) simp
  next
    case True
    obtain took answer w where rd: "read_response B (world st) = ((took, answer), w)"
      by (metis surj_pair)
    define st1 where "st1 = emit (EvPoll (clock st) answer) (st\<lparr>world := w, clock := clock st + took\<rparr>)"
    have log1: "ui_log st1 = ui_log st @ [EvPoll (clock st) answer]"
      by (simp add: st1_def emit_def)
    have r0: "slot_read B (world st) (clock st) 0 = (clock st, answer)"
      using rd by simp
    have rS: "slot_read B (world st) (clock st) (Suc k) = slot_read B w (clock st + took + 500) k"
      for k using rd by simp
    show ?thesis
    proof (cases "empty_answer answer")
      case False
      then have "st' = st1" and "res \<noteq> Inr TIMEOUT"
        using "1.prems" True rd
        by (auto simp: st1_def empty_answer_truthy Let_def interpret_response_def
                 split: sum.splits json.splits if_splits)
      then show ?thesis using True log1 r0 by (intro exI [of _ 1]) simp
    next
      case empty: True
      then obtain response where ans: "answer = Inr response" "\<not> truthy response"
        by (auto simp: empty_answer_truthy split: sum.splits)
      have rec: "poll_loop B e (sleep 500 st1) = (res, st')"
        using "1.prems" True rd ans by (simp add: st1_def Let_def)
      have w2: "world (sleep 500 st1) = w"
        and clk2: "clock (sleep 500 st1) = clock st + took + 500"
        and log2: "ui_log (sleep 500 st1) = ui_log st1"
        by (simp_all add: sleep_def st1_def emit_def)
      from "1.IH" [OF True rd [symmetric] refl st1_def ans(1) ans(2) rec]
      obtain n where
        P: "ui_log st' = ui_log st1 @
              map (\<lambda>k. case_prod EvPoll (slot_read B w (clock st + took + 500) k)) [0..<n]"
           "\<forall>k<n. fst (slot_read B w (clock st + took + 500) k) < e"
           "res = Inr TIMEOUT \<longrightarrow> e \<le> clock st'"
        unfolding w2 clk2 log2 by blast
      have "map (\<lambda>k. case_prod EvPoll (slot_read B (world st) (clock st) k)) [0..<Suc n] =
            EvPoll (clock st) answer #
            map (\<lambda>k. case_prod EvPoll (slot_read B w (clock st + took + 500) k)) [0..<n]"
        unfolding upt_conv_Cons [OF zero_less_Suc] map_Suc_upt [symmetric]
        by (simp add: rd comp_def)
      then have "ui_log st' = ui_log st @
            map (\<lambda>k. case_prod EvPoll (slot_read B (world st) (clock st) k)) [0..<Suc n]"
        using P(1) log1 by simp
      moreover have "\<forall>k<Suc n. fst (slot_read B (world st) (clock st) k) < e"
      proof (intro allI impI)
        fix k assume "k < Suc n"
        then show "fst (slot_read B (world st) (clock st) k) < e"
          using P(2) True r0 rS by (cases k) auto
      qed
      ultimately show ?thesis using P(3) by blast
    qed
  qed
qed

lemma poll_loop_decisive:
  assumes "\<forall>j<k. empty_answer (snd (slot_read B (world st) (clock st) j))"
    and "fst (slot_read B (world st) (clock st) k) < e"
    and "\<not> empty_answer (snd (slot_read B (world st) (clock st) k))"
  shows "fst (poll_loop B e st) =
           (case snd (slot_read B (world st) (clock st) k) of
              Inl ex \<Rightarrow> Inl ex | Inr r \<Rightarrow> interpret_response r)"
  using assms
proof (induction k arbitrary: st)
  case 0
  obtain took answer w where rd: "read_response B (world st) = ((took, answer), w)"
    by (metis surj_pair)
  from 0 rd have "clock st < e" "\<not> empty_answer answer" by simp_all
  then show ?case
    using rd by (subst poll_loop.simps) (auto simp: Let_def empty_answer_truthy split: sum.splits)
next
  case (Suc k)
  obtain took answer w where rd: "read_response B (world st) = ((took, answer), w)"
    by (metis surj_pair)
  define st2 where
    "st2 = sleep 500 (emit (EvPoll (clock st) answer) (st\<lparr>world := w, clock := clock st + took\<rparr>))"
  have w2: "world st2 = w" and clk2: "clock st2 = clock st + took + 500"
    by (simp_all add: st2_def sleep_def emit_def)
  have rS: "slot_read B (world st) (clock st) (Suc j) = slot_read B (world st2) (clock st2) j"
    for j using rd by (simp add: w2 clk2)
  from Suc.prems(1) rd have "empty_answer answer" by force
  then obtain response where ans: "answer = Inr response" "\<not> truthy response"
    by (auto simp: empty_answer_truthy split: sum.splits)
  have "clock st \<le> fst (slot_read B (world st) (clock st) (Suc k))"
    using slot_read_time [of "clock st" "Suc k" B "world st"] by simp
  with Suc.prems(2) have lt: "clock st < e" by simp
  have step: "poll_loop B e st = poll_loop B e st2"
    using lt rd ans by (subst poll_loop.simps) (simp add: Let_def st2_def)
  have "fst (poll_loop B e st2) =
          (case snd (slot_read B (world st2) (clock st2) k) of
             Inl ex \<Rightarrow> Inl ex | Inr r \<Rightarrow> interpret_response r)"
  proof (rule Suc.IH)
    show "\<forall>j<k. empty_answer (snd (slot_read B (world st2) (clock st2) j))"
      using Suc.prems(1) rS by (metis Suc_less_eq)
    show "fst (slot_read B (world st2) (clock st2) k) < e"
      using Suc.prems(2) rS by simp
    show "\<not> empty_answer (snd (slot_read B (world st2) (clock st2) k))"
      using Suc.prems(3) rS by simp
  qed
  then show ?case unfolding step rS .
qed

lemma poll_loop_timeout:
  "\<forall>k. fst (slot_read B (world st) (clock st) k) < e
        \<longrightarrow> empty_answer (snd (slot_read B (world st) (clock st) k)) \<Longrightarrow>
   fst (poll_loop B e st) = Inr TIMEOUT"
proof (induction B e st rule: poll_loop.induct)
  case (1 B e st)
  show ?case
  proof (cases "clock st < e")
    case False
    then show ?thesis by (subst poll_loop.simps) simp
  next
    case True
    obtain took answer w where rd: "read_response B (world st) = ((took, answer), w)"
      by (metis surj_pair)
    define st1 where "st1 = emit (EvPoll (clock st) answer) (st\<lparr>world := w, clock := clock st + took\<rparr>)"
    have w2: "world (sleep 500 st1) = w"
      and clk2: "clock (sleep 500 st1) = clock st + took + 500"
      by (simp_all add: sleep_def st1_def emit_def)
    have rS: "slot_read B (world st) (clock st) (Suc j) =
              slot_read B (world (sleep 500 st1)) (clock (sleep 500 st1)) j"
      for j using rd by (simp add: w2 clk2)
    from "1.prems" [rule_format, of 0] True rd have "empty_answer answer" by simp
    then obtain response where ans: "answer = Inr response" "\<not> truthy response"
      by (auto simp: empty_answer_truthy split: sum.splits)
    have step: "poll_loop B e st = poll_loop B e (sleep 500 st1)"
      using True rd ans by (subst poll_loop.simps) (simp add: Let_def st1_def)
    have "fst (poll_loop B e (sleep 500 st1)) = Inr TIMEOUT"
    proof (rule "1.IH" [OF True rd [symmetric] refl st1_def ans(1) ans(2)])
      show "\<forall>k. fst (slot_read B (world (sleep 500 st1)) (clock (sleep 500 st1)) k) < e
              \<longrightarrow> empty_answer (snd (slot_read B (world (sleep 500 st1)) (clock (sleep 500 st1)) k))"
        using "1.prems" rS by metis
    qed
    with step show ?thesis by simp
  qed
qed

text \<open>
  Claim C5. The status check reads the response slot (\<open>read_response\<close>) only before the
  deadline, the time of the call plus the timeout (120 seconds by default), each read
  half a second after the one before has returned, so at most twice the timeout (in
  seconds) times. The first answer read before the deadline that is not empty decides:
  the result is \<open>SUCCESS\<close> when that answer is a response object whose field \<open>code\<close> is
  the number 200, and \<open>FAIL\<close> when it is a response object with any other \<open>code\<close> or with
  none. When every read before the deadline finds the slot empty, the result is
  \<open>TIMEOUT\<close>, and the deadline has then passed.
\<close>

theorem check_ticket_creation_status_first_nonempty:
  assumes "check_ticket_creation_status B timeout st = (res, st')"
  shows "(\<exists>n\<le>2 * timeout.
            ui_log st' =
              ui_log st @ map (\<lambda>k. case_prod EvPoll (slot_read B (world st) (clock st) k)) [0..<n]
            \<and> (\<forall>k<n. fst (slot_read B (world st) (clock st) k) < clock st + 1000 * timeout))
       \<and> (\<forall>k fields.
            (\<forall>j<k. empty_answer (snd (slot_read B (world st) (clock st) j)))
            \<and> fst (slot_read B (world st) (clock st) k) < clock st + 1000 * timeout
            \<and> snd (slot_read B (world st) (clock st) k) = Inr (JObj fields) \<and> fields \<noteq> []
            \<longrightarrow> res = (if map_of fields ''code'' = Some (JNum 200) then Inr SUCCESS else Inr FAIL))
       \<and> ((\<forall>k. fst (slot_read B (world st) (clock st) k) < clock st + 1000 * timeout
                \<longrightarrow> empty_answer (snd (slot_read B (world st) (clock st) k)))
            \<longrightarrow> res = Inr TIMEOUT \<and> clock st + 1000 * timeout \<le> clock st')"
proof -
  let ?e = "clock st + 1000 * timeout"
  from assms have run: "poll_loop B ?e st = (res, st')"
    by (simp add: check_ticket_creation_status_def)
  from poll_loop_reads [OF run] obtain n where
    P: "ui_log st' =
          ui_log st @ map (\<lambda>k. case_prod EvPoll (slot_read B (world st) (clock st) k)) [0..<n]"
       "\<forall>k<n. fst (slot_read B (world st) (clock st) k) < ?e"
       "res = Inr TIMEOUT \<longrightarrow> ?e \<le> clock st'"
    by blast
  have "n \<le> 2 * timeout"
  proof (cases n)
    case 0
    then show ?thesis by simp
  next
    case (Suc m)
    with P(2) have "fst (slot_read B (world st) (clock st) m) < ?e" by simp
    with slot_read_time [of "clock st" m B "world st"] have "500 * m < 1000 * timeout" by simp
    with Suc show ?thesis by simp
  qed
  with P(1,2) have a: "\<exists>n\<le>2 * timeout.
            ui_log st' =
              ui_log st @ map (\<lambda>k. case_prod EvPoll (slot_read B (world st) (clock st) k)) [0..<n]
            \<and> (\<forall>k<n. fst (slot_read B (world st) (clock st) k) < ?e)"
    by blast
  have b: "res = (if map_of fields ''code'' = Some (JNum 200) then Inr SUCCESS else Inr FAIL)"
    if "\<forall>j<k. empty_answer (snd (slot_read B (world st) (clock st) j))"
      and "fst (slot_read B (world st) (clock st) k) < ?e"
      and "snd (slot_read B (world st) (clock st) k) = Inr (JObj fields)" and "fields \<noteq> []"
    for k fields
  proof -
    from that(3,4) have "\<not> empty_answer (snd (slot_read B (world st) (clock st) k))" by simp
    from poll_loop_decisive [OF that(1,2) this] run that(3) show ?thesis
      by (simp add: interpret_response_def)
  qed
  have c: "res = Inr TIMEOUT \<and> ?e \<le> clock st'"
    if "\<forall>k. fst (slot_read B (world st) (clock st) k) < ?e
            \<longrightarrow> empty_answer (snd (slot_read B (world st) (clock st) k))"
    using poll_loop_timeout [OF that] run P(3) by simp
  from a b c show ?thesis by blast
qed

theorem check_ticket_creation_status_first_nonempty_witness:
  "check_ticket_creation_status
     (scripted_browser True [] [(20, Inr JNull), (20, Inr (JObj [])),
        (20, Inr (JObj [(''code'', JNum 200), (''message'', JStr ''ok'')]))]) 120 fresh_page =
   (Inr SUCCESS,
    \<lparr> world = \<lparr>reads = 3, clicks = 0\<rparr>, clock = 1060,
      ui_log = [EvPoll 0 (Inr JNull), EvPoll 520 (Inr (JObj [])),
                EvPoll 1040 (Inr (JObj [(''code'', JNum 200), (''message'', JStr ''ok'')]))] \<rparr>)
   \<and> slot_read
         (scripted_browser True [] [(20, Inr JNull), (20, Inr (JObj [])),
            (20, Inr (JObj [(''code'', JNum 200), (''message'', JStr ''ok'')]))])
         (world fresh_page) (clock fresh_page) 0 = (0, Inr JNull)
   \<and> slot_read
         (scripted_browser True [] [(20, Inr JNull), (20, Inr (JObj [])),
            (20, Inr (JObj [(''code'', JNum 200), (''message'', JStr ''ok'')]))])
         (world fresh_page) (clock fresh_page) 1 = (520, Inr (JObj []))
   \<and> slot_read
         (scripted_browser True [] [(20, Inr JNull), (20, Inr (JObj [])),
            (20, Inr (JObj [(''code'', JNum 200), (''message'', JStr ''ok'')]))])
         (world fresh_page) (clock fresh_page) 2 =
       (1040, Inr (JObj [(''code'', JNum 200), (''message'', JStr ''ok'')]))
   \<and> (Inr SUCCESS :: exn + outcome) =
       (if map_of [(''code'', JNum 200), (''message'', JStr ''ok'')] ''code'' = Some (JNum 200)
        then Inr SUCCESS else Inr FAIL)"
proof -
  let ?B = "scripted_browser True [] [(20, Inr JNull), (20, Inr (JObj [])),
        (20, Inr (JObj [(''code'', JNum 200), (''message'', JStr ''ok'')]))]"
  have run: "check_ticket_creation_status ?B 120 fresh_page =
   (Inr SUCCESS,
    \<lparr> world = \<lparr>reads = 3, clicks = 0\<rparr>, clock = 1060,
      ui_log = [EvPoll 0 (Inr JNull), EvPoll 520 (Inr (JObj [])),
                EvPoll 1040 (Inr (JObj [(''code'', JNum 200), (''message'', JStr ''ok'')]))] \<rparr>)"
    by (simp add: check_ticket_creation_status_def scripted_browser_def fresh_page_def
          emit_def sleep_def interpret_response_def Let_def)
  have r0: "slot_read ?B (world fresh_page) (clock fresh_page) 0 = (0, Inr JNull)"
    by (simp add: scripted_browser_def fresh_page_def)
  have r1: "slot_read ?B (world fresh_page) (clock fresh_page) 1 = (520, Inr (JObj []))"
    by (simp add: scripted_browser_def fresh_page_def)
  have r2: "slot_read ?B (world fresh_page) (clock fresh_page) 2 =
      (1040, Inr (JObj [(''code'', JNum 200), (''message'', JStr ''ok'')]))"
    by (simp add: scripted_browser_def fresh_page_def numeral_2_eq_2)
  have before: "\<forall>j<2. empty_answer (snd (slot_read ?B (world fresh_page) (clock fresh_page) j))"
  proof (intro allI impI)
    fix j :: nat assume "j < 2"
    then have "j = 0 \<or> j = 1" by auto
    then show "empty_answer (snd (slot_read ?B (world fresh_page) (clock fresh_page) j))"
      using r0 r1 by auto
  qed
  have "fst (slot_read ?B (world fresh_page) (clock fresh_page) 2)
          < clock fresh_page + 1000 * 120"
    unfolding r2 by (simp add: fresh_page_def)
  with check_ticket_creation_status_first_nonempty [OF run] before r2
  have "(Inr SUCCESS :: exn + outcome) =
       (if map_of [(''code'', JNum 200), (''message'', JStr ''ok'')] ''code'' = Some (JNum 200)
        then Inr SUCCESS else Inr FAIL)"
    by simp
  with run r0 r1 r2 show ?thesis by blast
qed

text \<open>
  Claim C10. When the body of a response from the creation endpoint does not parse, the
  listener stores the marker \<open>{error: 'JSON parse error', data: <body>}\<close> in the slot: an
  object that is not empty and has no field \<open>code\<close>. When that marker is the first answer
  that is not empty among those the status check reads from the slot before its
  deadline, the result of the check is \<open>FAIL\<close> (so neither \<open>SUCCESS\<close> nor \<open>TIMEOUT\<close>).
\<close>

theorem parse_error_marker_is_fail:
  assumes "JSON_parse responseText = None"
    and "responseURL \<noteq> []" and "js_includes responseURL create_ticket_path"
  shows "xhr_on_load JSON_parse responseURL responseText slot =
           JObj [(''error'', JStr ''JSON parse error''), (''data'', JStr responseText)]
       \<and> \<not> empty_answer (Inr (xhr_on_load JSON_parse responseURL responseText slot))
       \<and> (\<exists>fields. xhr_on_load JSON_parse responseURL responseText slot = JObj fields
             \<and> map_of fields ''code'' = None)
       \<and> (\<forall>B timeout st k.
            (\<forall>j<k. empty_answer (snd (slot_read B (world st) (clock st) j)))
            \<and> fst (slot_read B (world st) (clock st) k) < clock st + 1000 * timeout
            \<and> snd (slot_read B (world st) (clock st) k) =
                Inr (xhr_on_load JSON_parse responseURL responseText slot)
            \<longrightarrow> fst (check_ticket_creation_status B timeout st) = Inr FAIL)"
proof -
  let ?marker = "xhr_on_load JSON_parse responseURL responseText slot"
  have a: "?marker = JObj [(''error'', JStr ''JSON parse error''), (''data'', JStr responseText)]"
    using assms by (simp add: xhr_on_load_def parse_error_marker_def)
  have b: "\<not> empty_answer (Inr ?marker)"
    by (simp add: a)
  have c: "\<exists>fields. ?marker = JObj fields \<and> map_of fields ''code'' = None"
    by (simp add: a)
  have d: "interpret_response ?marker = Inr FAIL"
    by (simp add: a interpret_response_def)
  have e: "fst (check_ticket_creation_status B timeout st) = Inr FAIL"
    if "\<forall>j<k. empty_answer (snd (slot_read B (world st) (clock st) j))"
      and "fst (slot_read B (world st) (clock st) k) < clock st + 1000 * timeout"
      and "snd (slot_read B (world st) (clock st) k) = Inr ?marker"
    for B :: "('w, 'e) browser" and timeout st k
  proof -
    from b that(3) have "\<not> empty_answer (snd (slot_read B (world st) (clock st) k))" by simp
    from poll_loop_decisive [OF that(1,2) this] that(3) d show ?thesis
      by (simp add: check_ticket_creation_status_def)
  qed
  from a b c e show ?thesis by blast
qed

theorem parse_error_marker_is_fail_witness:
  "(\<lambda>s. None :: json option) ''<html>'' = None
   \<and> ''https://intranet/project-management/configuring/dp/create-ticket?id=7'' \<noteq> []
   \<and> js_includes ''https://intranet/project-management/configuring/dp/create-ticket?id=7''
         create_ticket_path
   \<and> xhr_on_load (\<lambda>s. None) ''https://intranet/project-management/configuring/dp/create-ticket?id=7''
         ''<html>'' JNull = JObj [(''error'', JStr ''JSON parse error''), (''data'', JStr ''<html>'')]
   \<and> slot_read (scripted_browser True [] [(20, Inr JNull),
         (20, Inr (JObj [(''error'', JStr ''JSON parse error''), (''data'', JStr ''<html>'')]))])
       (world fresh_page) (clock fresh_page) 1 =
       (520, Inr (JObj [(''error'', JStr ''JSON parse error''), (''data'', JStr ''<html>'')]))
   \<and> fst (check_ticket_creation_status
         (scripted_browser True [] [(20, Inr JNull),
            (20, Inr (JObj [(''error'', JStr ''JSON parse error''), (''data'', JStr ''<html>'')]))])
         120 fresh_page) = Inr FAIL"
proof -
  let ?url = "''https://intranet/project-management/configuring/dp/create-ticket?id=7''"
  let ?marker = "JObj [(''error'', JStr ''JSON parse error''), (''data'', JStr ''<html>'')]"
  let ?B = "scripted_browser True [] [(20, Inr JNull), (20, Inr ?marker)]"
  have h1: "(\<lambda>s. None :: json option) ''<html>'' = None" by simp
  have h2: "?url \<noteq> []" by simp
  have h3: "js_includes ?url create_ticket_path"
    by (simp add: create_ticket_path_def)
  note T = parse_error_marker_is_fail
    [where JSON_parse = "\<lambda>s. None" and responseText = "''<html>''" and slot = JNull,
     OF h1 h2 h3]
  from T have a: "xhr_on_load (\<lambda>s. None) ?url ''<html>'' JNull = ?marker"
    by (rule conjunct1)
  have r0: "slot_read ?B (world fresh_page) (clock fresh_page) 0 = (0, Inr JNull)"
    by (simp add: scripted_browser_def fresh_page_def)
  have r1: "slot_read ?B (world fresh_page) (clock fresh_page) 1 = (520, Inr ?marker)"
    by (simp add: scripted_browser_def fresh_page_def)
  have before: "\<forall>j<1. empty_answer (snd (slot_read ?B (world fresh_page) (clock fresh_page) j))"
    using r0 by simp
  have time: "fst (slot_read ?B (world fresh_page) (clock fresh_page) 1)
                < clock fresh_page + 1000 * 120"
    unfolding r1 by (simp add: fresh_page_def)
  have answer: "snd (slot_read ?B (world fresh_page) (clock fresh_page) 1) =
                  Inr (xhr_on_load (\<lambda>s. None) ?url ''<html>'' JNull)"
    unfolding r1 a by simp
  from T have "\<forall>(B :: (demo_world, unit) browser) timeout st k.
            (\<forall>j<k. empty_answer (snd (slot_read B (world st) (clock st) j)))
            \<and> fst (slot_read B (world st) (clock st) k) < clock st + 1000 * timeout
            \<and> snd (slot_read B (world st) (clock st) k) =
                Inr (xhr_on_load (\<lambda>s. None) ?url ''<html>'' JNull)
            \<longrightarrow> fst (check_ticket_creation_status B timeout st) = Inr FAIL"
    by blast
  with before time answer
  have "fst (check_ticket_creation_status ?B 120 fresh_page) = Inr FAIL"
    by blast
  with h1 h2 h3 a r1 show ?thesis by blast
qed

section \<open>Properties of the filter-result validator\<close>

text \<open>
  Claim C6, as amended. In every attempt of the validator the check for a "no data"
  indicator comes first: when one is displayed the result is \<open>NO_DATA\<close>, whatever the
  result cell holds. Otherwise, when the result cell is found and its text is read, the
  result is \<open>MATCH\<close> if the text with the surrounding whitespace stripped equals the
  expected code, and \<open>MISMATCH\<close> if the stripped text is anything else. The validator
  called with a positive number of attempts starts with attempt 0.
\<close>

theorem validate_filter_result_priority:
  assumes "no_data_visible B no_data_message (world st) = (visible, w1)"
  shows "(visible \<longrightarrow> fst (validate_loop B expected m (attempt # rest) st) = Inr NO_DATA)
       \<and> (\<forall>cell w2 cell_text w3.
             \<not> visible \<and> wait_for_element B result_dp_code_cell w1 = (Some cell, w2)
             \<and> element_text B cell w2 = (Inr cell_text, w3)
             \<longrightarrow> fst (validate_loop B expected m (attempt # rest) st) =
                   Inr (if strip cell_text = expected then MATCH else MISMATCH))
       \<and> (0 < m \<longrightarrow> validate_filter_result B expected m st =
                       validate_loop B expected m (0 # [1..<m]) st)"
proof -
  have w: "world (sleep 2000 st) = world st" by (simp add: sleep_def)
  have a: "visible \<longrightarrow> fst (validate_loop B expected m (attempt # rest) st) = Inr NO_DATA"
    using assms w by (simp add: Let_def)
  have b: "fst (validate_loop B expected m (attempt # rest) st) =
             Inr (if strip cell_text = expected then MATCH else MISMATCH)"
    if "\<not> visible" "wait_for_element B result_dp_code_cell w1 = (Some cell, w2)"
       "element_text B cell w2 = (Inr cell_text, w3)" for cell w2 cell_text w3
    using assms w that by (simp add: Let_def)
  have c: "0 < m \<longrightarrow> validate_filter_result B expected m st =
                       validate_loop B expected m (0 # [1..<m]) st"
    by (simp add: validate_filter_result_def upt_rec)
  from a b c show ?thesis by blast
qed

theorem validate_filter_result_priority_witness:
  "no_data_visible no_data_browser no_data_message (world fresh_page) = (True, world fresh_page)
   \<and> fst (validate_loop no_data_browser ''DP001'' 3 [0, 1, 2] fresh_page) = Inr NO_DATA
   \<and> element_text no_data_browser () (world fresh_page) = (Inr ''DP001'', world fresh_page)"
proof -
  have h: "no_data_visible no_data_browser no_data_message (world fresh_page) =
           (True, world fresh_page)"
    by (simp add: no_data_browser_def scripted_browser_def fresh_page_def no_data_message_def)
  note T = validate_filter_result_priority
    [OF h, where expected = "''DP001''" and m = 3 and attempt = 0 and rest = "[1, 2]"]
  from T have "fst (validate_loop no_data_browser ''DP001'' 3 [0, 1, 2] fresh_page) = Inr NO_DATA"
    by blast
  moreover have "element_text no_data_browser () (world fresh_page) =
                 (Inr ''DP001'', world fresh_page)"
    by (simp add: no_data_browser_def scripted_browser_def)
  ultimately show ?thesis using h by blast
qed

text \<open>
  The claim as written fails where the cell text differs from the expected code by
  surrounding whitespace only: the cell reads \<open>DP001\<close> followed by a space, which is
  another value than \<open>DP001\<close>, and the validator answers \<open>MATCH\<close>, not \<open>MISMATCH\<close>.
\<close>

theorem validate_filter_result_counterexample:
  "element_text padded_cell_browser () (world fresh_page) = (Inr ''DP001 '', world fresh_page)
   \<and> ''DP001 '' \<noteq> ''DP001''
   \<and> fst (validate_filter_result padded_cell_browser ''DP001'' 3 fresh_page) = Inr MATCH
   \<and> fst (validate_filter_result padded_cell_browser ''DP001'' 3 fresh_page) \<noteq> Inr MISMATCH"
  by (simp add: validate_filter_result_def padded_cell_browser_def scripted_browser_def
      fresh_page_def no_data_message_def sleep_def Let_def strip_def isspace_def upt_rec)

section \<open>Properties of the orchestrator\<close>

text \<open>The equations that unfold a run of the model on given data.\<close>

lemmas model_defs =
  process_item_def demo_master_def demo_config_def new_bot_def fresh_page_def
  scripted_browser_def process_ticket_creation_def ticket_steps_def select_filters_def
  dropdown_def emit_def sleep_def locate_def click_def page_load_def
  validate_filter_result_def no_data_message_def strip_def isspace_def Let_def
  pause_before_retry_def create_ticket_def locate_and_click_def confirm_and_wait_def
  clear_slot_def check_ticket_creation_status_def interpret_response_def
  handle_page_refresh_and_navigation_def refresh_page_def sleep_seconds_def
  navigate_to_dp_menu_def inject_network_listener_def on_attempt_error_def
  run_automation_def catch_fatal_def generate_final_report_def read_daily_input_def
  upt_rec numeral_3_eq_3

lemma process_ticket_creation_no_Exception:
  "process_ticket_creation B city rk c st = (Inl e, st') \<Longrightarrow> \<not> is_Exception e"
  by (auto simp: process_ticket_creation_def split: prod.splits sum.splits if_splits)

lemma inject_network_listener_no_Exception:
  "inject_network_listener B st = (Inl e, st') \<Longrightarrow> \<not> is_Exception e"
  by (auto simp: inject_network_listener_def Let_def split: prod.splits sum.splits if_splits)

lemma navigate_to_dp_menu_no_Exception:
  "navigate_to_dp_menu B st = (Inl e, st') \<Longrightarrow> \<not> is_Exception e"
  by (auto simp: navigate_to_dp_menu_def dest: inject_network_listener_no_Exception
           split: prod.splits sum.splits if_splits option.splits bool.splits)

lemma recovery_no_Exception:
  "handle_page_refresh_and_navigation B cfg st = (Inl e, st') \<Longrightarrow> \<not> is_Exception e"
  by (auto simp: handle_page_refresh_and_navigation_def dest: navigate_to_dp_menu_no_Exception
           split: prod.splits sum.splits if_splits)



lemma map_of_Some_fst: "map_of m c = Some d \<Longrightarrow> c \<in> fst ` set m"
  by (force dest: map_of_SomeD)

lemma process_item_processed:
  assumes "process_item B cfg master c (bt, st) = (sig, bt', st')"
  shows "processed_dps bt' \<subseteq> processed_dps bt \<union> ({c} \<inter> fst ` set master)"
  using assms
  by (auto simp: process_item_def dest: map_of_Some_fst
           split: if_splits option.splits prod.splits sum.splits outcome.splits exn.splits)


lemma run_items_processed:
  "run_items B cfg master codes (bt, st) = (r, bt', st') \<Longrightarrow>
   processed_dps bt' \<subseteq> processed_dps bt \<union> (set codes \<inter> fst ` set master)"
proof (induction codes arbitrary: bt st)
  case Nil
  then show ?case by simp
next
  case (Cons c rest)
  obtain sig bt1 st1 where step: "process_item B cfg master c (bt, st) = (sig, bt1, st1)"
    by (metis surj_pair)
  note sub = process_item_processed [OF step]
  show ?case
  proof (cases sig)
    case Continue
    with Cons.prems step have "run_items B cfg master rest (bt1, st1) = (r, bt', st')" by simp
    from Cons.IH [OF this] sub show ?thesis by auto
  next
    case Break
    with Cons.prems step have "bt' = bt1" by simp
    with sub show ?thesis by auto
  next
    case (Raise e)
    with Cons.prems step have "bt' = bt1" by simp
    with sub show ?thesis by auto
  qed
qed



lemma run_automation_processed:
  assumes "run_automation B cfg (Some master) file (bt, st) = (r, bt', st')"
    and "read_daily_input file = Inr codes"
  shows "processed_dps bt' \<subseteq> processed_dps bt \<union> (set codes \<inter> fst ` set master)"
  using assms
  by (auto simp: run_automation_def catch_fatal_def generate_final_report_def
           dest!: run_items_processed
           split: option.splits if_splits sum.splits prod.splits bool.splits)

lemma retry_loop_SUCCESS:
  "retry_loop B cfg data c attempts jr st = (Inr SUCCESS, jr', st') \<Longrightarrow>
   \<exists>s. process_ticket_creation B (City data) (RK data) c s = (Inr SUCCESS, st')"
  by (induction attempts arbitrary: jr st)
     (auto simp: Let_def split: prod.splits sum.splits outcome.splits bool.splits if_splits)

text \<open>
  Claim C4. A code of the work list that has no entry in the reference table is passed
  over: the round goes on to the next code with the page untouched (no call into the
  browser, so no attempt of the per-record sequence) and the journal unchanged, the
  counter \<open>skipped\<close> one higher, and \<open>failed\<close>, \<open>successful\<close> and the processed set as
  they were.
\<close>

theorem absent_code_is_skipped:
  assumes "c \<notin> fst ` set master"
    and "process_item B cfg master c (bt, st) = (sig, bt', st')"
  shows "sig = Continue \<and> st' = st \<and> journal bt' = journal bt
       \<and> skipped bt' = skipped bt + 1 \<and> failed bt' = failed bt
       \<and> successful bt' = successful bt \<and> processed_dps bt' = processed_dps bt"
proof -
  from assms(1) have "map_of master c = None"
    by (simp add: map_of_eq_None_iff)
  with assms(2) show ?thesis
    by (auto simp: process_item_def split: if_splits)
qed

theorem absent_code_is_skipped_witness:
  "''DP999'' \<notin> fst ` set demo_master
   \<and> process_item (scripted_browser True [] []) demo_config demo_master ''DP999''
       (new_bot, fresh_page) = (Continue, new_bot\<lparr>skipped := 1\<rparr>, fresh_page)
   \<and> failed (new_bot\<lparr>skipped := 1\<rparr>) = failed new_bot
   \<and> skipped (new_bot\<lparr>skipped := 1\<rparr>) = skipped new_bot + 1"
proof -
  have h: "''DP999'' \<notin> fst ` set demo_master"
    by (simp add: demo_master_def)
  have run: "process_item (scripted_browser True [] []) demo_config demo_master ''DP999''
       (new_bot, fresh_page) = (Continue, new_bot\<lparr>skipped := 1\<rparr>, fresh_page)"
    by (simp add: process_item_def demo_master_def new_bot_def)
  from absent_code_is_skipped [OF h run] h run show ?thesis by simp
qed

text \<open>
  Claim C8. In a run the processed set is cleared before the first code and then, after
  any number of rounds of the loop, holds only codes of the work list that have an entry
  in the reference table; so it does when the run ends, however it ends. A round adds at
  most its own code, and only when that code has an entry and the last attempt of the
  per-record sequence returned \<open>SUCCESS\<close>.
\<close>

theorem processed_within_work_list_and_table:
  "(run_items B cfg master (take n codes) (bt\<lparr>processed_dps := {}\<rparr>, st) = (r, bt', st')
      \<longrightarrow> processed_dps bt' \<subseteq> set codes \<inter> fst ` set master)
   \<and> (read_daily_input daily_file = Inr codes
       \<and> run_automation B cfg (Some master) daily_file (new_bot, st) = (ra, bta, sta)
      \<longrightarrow> processed_dps bta \<subseteq> set codes \<inter> fst ` set master)
   \<and> (process_item B cfg master c (bt, st) = (sig, bti, sti)
       \<and> c' \<in> processed_dps bti \<and> c' \<notin> processed_dps bt
      \<longrightarrow> c' = c \<and> sig = Continue \<and>
          (\<exists>data s st1. map_of master c = Some data \<and> sti = sleep 1000 st1 \<and>
             process_ticket_creation B (City data) (RK data) c s = (Inr SUCCESS, st1)))"
proof -
  have p1: "processed_dps bt' \<subseteq> set codes \<inter> fst ` set master"
    if "run_items B cfg master (take n codes) (bt\<lparr>processed_dps := {}\<rparr>, st) = (r, bt', st')"
    using run_items_processed [OF that] by (auto dest: in_set_takeD)
  have p2: "processed_dps bta \<subseteq> set codes \<inter> fst ` set master"
    if "read_daily_input daily_file = Inr codes"
      and "run_automation B cfg (Some master) daily_file (new_bot, st) = (ra, bta, sta)"
    using run_automation_processed [OF that(2,1)] by (simp add: new_bot_def)
  have p3: "c' = c \<and> sig = Continue \<and>
          (\<exists>data s st1. map_of master c = Some data \<and> sti = sleep 1000 st1 \<and>
             process_ticket_creation B (City data) (RK data) c s = (Inr SUCCESS, st1))"
    if step: "process_item B cfg master c (bt, st) = (sig, bti, sti)"
      and new: "c' \<in> processed_dps bti" "c' \<notin> processed_dps bt"
  proof -
    from step new obtain data jr st1 where
      d: "map_of master c = Some data" "c' = c" "sig = Continue" "sti = sleep 1000 st1"
         "retry_loop B cfg data c [0..<nat (MAX_RETRIES cfg)] (journal bt) st =
            (Inr SUCCESS, jr, st1)"
      by (auto simp: process_item_def
               split: if_splits option.splits prod.splits sum.splits outcome.splits exn.splits)
    from retry_loop_SUCCESS [OF d(5)] d(1-4) show ?thesis by blast
  qed
  from p1 p2 p3 show ?thesis by blast
qed


theorem processed_within_work_list_and_table_witness:
  "read_daily_input (Inr [''DP001'', ''DP999'']) = Inr [''DP001'', ''DP999'']
   \<and> processed_dps (fst (snd (run_automation
         (scripted_browser True [] [(20, Inr (JObj [(''code'', JNum 200)]))])
         demo_config (Some demo_master) (Inr [''DP001'', ''DP999'']) (new_bot, fresh_page)))) =
       {''DP001''}
   \<and> {''DP001''} \<subseteq> set [''DP001'', ''DP999''] \<inter> fst ` set demo_master"
proof -
  let ?B = "scripted_browser True [] [(20, Inr (JObj [(''code'', JNum 200)]))]"
  let ?R = "run_automation ?B demo_config (Some demo_master) (Inr [''DP001'', ''DP999''])
              (new_bot, fresh_page)"
  have rd: "read_daily_input (Inr [''DP001'', ''DP999'']) = Inr [''DP001'', ''DP999'']"
    by (simp add: model_defs)
  have run: "?R = (fst ?R, fst (snd ?R), snd (snd ?R))"
    by simp
  have val: "processed_dps (fst (snd ?R)) = {''DP001''}"
    by (simp add: model_defs)
  from processed_within_work_list_and_table
    [where daily_file = "Inr [''DP001'', ''DP999'']" and codes = "[''DP001'', ''DP999'']"
       and B = "?B" and cfg = demo_config and master = demo_master and st = fresh_page
       and ra = "fst ?R" and bta = "fst (snd ?R)" and sta = "snd (snd ?R)"]
    rd run
  have "processed_dps (fst (snd ?R)) \<subseteq> set [''DP001'', ''DP999''] \<inter> fst ` set demo_master"
    by blast
  with rd val show ?thesis by simp
qed






section \<open>Properties of the retry loop\<close>

lemma loop_trace_Cons:
  assumes "loop_trace B data c res st' evs"
    and "ev = Attempted c FAIL \<or> ev = Recovered c True"
  shows "loop_trace B data c res st' (ev # evs)"
proof -
  from assms(1) obtain pre fin where
    P: "evs = pre @ fin" "set pre \<subseteq> {Attempted c FAIL, Recovered c True}"
       "fin = [Attempted c SUCCESS] \<and> res = Inr SUCCESS \<and>
           (\<exists>s. process_ticket_creation B (City data) (RK data) c s = (Inr SUCCESS, st'))
         \<or> fin = [Attempted c TIMEOUT] \<and> res = Inr TIMEOUT \<and>
           (\<exists>s. process_ticket_creation B (City data) (RK data) c s = (Inr TIMEOUT, st'))
         \<or> fin = [Recovered c False] \<and> res = Inr FAIL
         \<or> fin = [] \<and> res \<noteq> Inr SUCCESS \<and> res \<noteq> Inr TIMEOUT"
    unfolding loop_trace_def by blast
  have "ev # evs = (ev # pre) @ fin" using P(1) by simp
  moreover have "set (ev # pre) \<subseteq> {Attempted c FAIL, Recovered c True}"
    using P(2) assms(2) by auto
  ultimately show ?thesis
    unfolding loop_trace_def using P(3) by blast
qed

lemma loop_trace_end:
  "process_ticket_creation B (City data) (RK data) c s = (Inr SUCCESS, st') \<Longrightarrow>
   loop_trace B data c (Inr SUCCESS) st' [Attempted c SUCCESS]"
  "process_ticket_creation B (City data) (RK data) c s = (Inr TIMEOUT, st') \<Longrightarrow>
   loop_trace B data c (Inr TIMEOUT) st' [Attempted c TIMEOUT]"
  "loop_trace B data c (Inr FAIL) st' [Recovered c False]"
  "res \<noteq> Inr SUCCESS \<Longrightarrow> res \<noteq> Inr TIMEOUT \<Longrightarrow> loop_trace B data c res st' []"
  unfolding loop_trace_def by fastforce+

lemma retry_loop_shape:
  "retry_loop B cfg data c attempts jr st = (res, jr', st') \<Longrightarrow>
   \<exists>evs. jr' = jr @ evs \<and> loop_trace B data c res st' evs"
proof (induction attempts arbitrary: jr st)
  case Nil
  then show ?case by (auto simp: loop_trace_end)
next
  case (Cons attempt rest)
  have IH: "\<exists>evs. jr' = jr @ pre @ evs \<and> loop_trace B data c res st' evs"
    if "retry_loop B cfg data c rest (jr @ pre) s = (res, jr', st')" for pre s
    using Cons.IH [OF that] by simp
  have ext: "\<exists>evs. jr' = jr @ evs \<and> loop_trace B data c res st' evs"
    if "retry_loop B cfg data c rest (jr @ pre) s = (res, jr', st')"
      and "set pre \<subseteq> {Attempted c FAIL, Recovered c True}" for pre s
  proof -
    from IH [OF that(1)] obtain evs where
      e: "jr' = jr @ pre @ evs" "loop_trace B data c res st' evs" by blast
    from that(2) e(2) have "loop_trace B data c res st' (pre @ evs)"
      by (induction pre) (auto intro: loop_trace_Cons)
    with e(1) show ?thesis by blast
  qed
  have ext0: "\<exists>evs. jr' = jr @ evs \<and> loop_trace B data c res st' evs"
    if "retry_loop B cfg data c rest jr s = (res, jr', st')" for s
    using ext [of "[]" s] that by simp
  have ext1: "\<exists>evs. jr' = jr @ evs \<and> loop_trace B data c res st' evs"
    if "retry_loop B cfg data c rest (jr @ [Attempted c FAIL]) s = (res, jr', st')" for s
    using ext [OF that] by simp
  have ext2: "\<exists>evs. jr' = jr @ evs \<and> loop_trace B data c res st' evs"
    if "retry_loop B cfg data c rest (jr @ [Attempted c FAIL, Recovered c True]) s = (res, jr', st')"
    for s
    using ext [OF that] by simp
  from Cons.prems show ?case
    by (auto simp: Let_def dest: ext0 ext1 ext2 intro: loop_trace_Cons loop_trace_end
             split: prod.splits sum.splits outcome.splits bool.splits if_splits)
qed


text \<open>
  Claim C3. An attempt of the per-record sequence that returns \<open>TIMEOUT\<close> ends the retry
  loop at once, whatever attempts remain: the loop returns \<open>TIMEOUT\<close>, leaves the page
  as that attempt left it and adds only that attempt to the journal. A \<open>TIMEOUT\<close> in what
  the loop adds to the journal is therefore its last entry, all entries before it being
  failed attempts and successful recoveries. The round of a code whose loop returned
  \<open>TIMEOUT\<close> goes on to the next code after the pause of one second with \<open>skipped\<close> one
  higher and \<open>successful\<close>, \<open>failed\<close> and the processed set as they were, so without
  the code in the processed set.
\<close>

theorem timeout_is_terminal:
  "(process_ticket_creation B (City data) (RK data) c st = (Inr TIMEOUT, sta)
      \<longrightarrow> retry_loop B cfg data c (attempt # rest) jr st =
            (Inr TIMEOUT, jr @ [Attempted c TIMEOUT], sta))
   \<and> (retry_loop B cfg data c attempts jr st = (res, jr @ evs, stb)
       \<and> Attempted c TIMEOUT \<in> set evs
      \<longrightarrow> res = Inr TIMEOUT
          \<and> (\<exists>pre. evs = pre @ [Attempted c TIMEOUT]
                \<and> set pre \<subseteq> {Attempted c FAIL, Recovered c True})
          \<and> (\<exists>s. process_ticket_creation B (City data) (RK data) c s = (Inr TIMEOUT, stb)))
   \<and> (map_of master c = Some data \<and> c \<notin> processed_dps bt
       \<and> retry_loop B cfg data c [0..<nat (MAX_RETRIES cfg)] (journal bt) st =
           (Inr TIMEOUT, jrc, stc)
      \<longrightarrow> process_item B cfg master c (bt, st) =
            (Continue, bt\<lparr>skipped := skipped bt + 1, journal := jrc\<rparr>, sleep 1000 stc)
          \<and> c \<notin> processed_dps (bt\<lparr>skipped := skipped bt + 1, journal := jrc\<rparr>)
          \<and> successful (bt\<lparr>skipped := skipped bt + 1, journal := jrc\<rparr>) = successful bt
          \<and> failed (bt\<lparr>skipped := skipped bt + 1, journal := jrc\<rparr>) = failed bt)"
proof -
  have p1: "retry_loop B cfg data c (attempt # rest) jr st =
            (Inr TIMEOUT, jr @ [Attempted c TIMEOUT], sta)"
    if "process_ticket_creation B (City data) (RK data) c st = (Inr TIMEOUT, sta)"
    using that by simp
  have p2: "res = Inr TIMEOUT
          \<and> (\<exists>pre. evs = pre @ [Attempted c TIMEOUT]
                \<and> set pre \<subseteq> {Attempted c FAIL, Recovered c True})
          \<and> (\<exists>s. process_ticket_creation B (City data) (RK data) c s = (Inr TIMEOUT, stb))"
    if run: "retry_loop B cfg data c attempts jr st = (res, jr @ evs, stb)"
      and seen: "Attempted c TIMEOUT \<in> set evs"
  proof -
    from retry_loop_shape [OF run] have "loop_trace B data c res stb evs" by simp
    then obtain pre fin where
      P: "evs = pre @ fin" "set pre \<subseteq> {Attempted c FAIL, Recovered c True}"
         "fin = [Attempted c SUCCESS] \<and> res = Inr SUCCESS \<and>
           (\<exists>s. process_ticket_creation B (City data) (RK data) c s = (Inr SUCCESS, stb))
         \<or> fin = [Attempted c TIMEOUT] \<and> res = Inr TIMEOUT \<and>
           (\<exists>s. process_ticket_creation B (City data) (RK data) c s = (Inr TIMEOUT, stb))
         \<or> fin = [Recovered c False] \<and> res = Inr FAIL
         \<or> fin = [] \<and> res \<noteq> Inr SUCCESS \<and> res \<noteq> Inr TIMEOUT"
      unfolding loop_trace_def by blast
    from seen P(1,2) have "Attempted c TIMEOUT \<in> set fin" by auto
    with P(3) have "fin = [Attempted c TIMEOUT]" "res = Inr TIMEOUT"
      "\<exists>s. process_ticket_creation B (City data) (RK data) c s = (Inr TIMEOUT, stb)"
      by auto
    with P(1,2) show ?thesis by blast
  qed
  have p3: "process_item B cfg master c (bt, st) =
            (Continue, bt\<lparr>skipped := skipped bt + 1, journal := jrc\<rparr>, sleep 1000 stc)
          \<and> c \<notin> processed_dps (bt\<lparr>skipped := skipped bt + 1, journal := jrc\<rparr>)
          \<and> successful (bt\<lparr>skipped := skipped bt + 1, journal := jrc\<rparr>) = successful bt
          \<and> failed (bt\<lparr>skipped := skipped bt + 1, journal := jrc\<rparr>) = failed bt"
    if "map_of master c = Some data" "c \<notin> processed_dps bt"
      "retry_loop B cfg data c [0..<nat (MAX_RETRIES cfg)] (journal bt) st =
           (Inr TIMEOUT, jrc, stc)"
    using that by (simp add: process_item_def)
  from p1 p2 p3 show ?thesis by blast
qed

theorem timeout_is_terminal_witness:
  "process_ticket_creation (scripted_browser True [] []) ''Jakarta'' ''RK01'' ''DP001'' fresh_page =
     (Inr TIMEOUT, snd (process_ticket_creation (scripted_browser True [] [])
                          ''Jakarta'' ''RK01'' ''DP001'' fresh_page))
   \<and> map_of demo_master ''DP001'' = Some \<lparr> City = ''Jakarta'', RK = ''RK01'', row_number = 2 \<rparr>
   \<and> ''DP001'' \<notin> processed_dps new_bot
   \<and> process_item (scripted_browser True [] []) demo_config demo_master ''DP001''
        (new_bot, fresh_page) =
      (Continue, new_bot\<lparr>skipped := 1, journal := [Attempted ''DP001'' TIMEOUT]\<rparr>,
       sleep 1000 (snd (process_ticket_creation (scripted_browser True [] [])
                          ''Jakarta'' ''RK01'' ''DP001'' fresh_page)))"
proof -
  let ?B = "scripted_browser True [] []"
  let ?data = "\<lparr> City = ''Jakarta'', RK = ''RK01'', row_number = 2 \<rparr>"
  let ?s = "snd (process_ticket_creation ?B ''Jakarta'' ''RK01'' ''DP001'' fresh_page)"
  have a: "process_ticket_creation ?B (City ?data) (RK ?data) ''DP001'' fresh_page =
             (Inr TIMEOUT, ?s)"
    by (simp add: model_defs)
  have m: "map_of demo_master ''DP001'' = Some ?data"
    by (simp add: demo_master_def)
  have n: "''DP001'' \<notin> processed_dps new_bot"
    by (simp add: new_bot_def)
  note T = timeout_is_terminal
    [where B = "?B" and data = "?data" and c = "''DP001''" and st = fresh_page and sta = "?s"
       and cfg = demo_config and master = demo_master and bt = new_bot
       and jr = "journal new_bot" and attempt = 0 and rest = "[1, 2]"
       and jrc = "journal new_bot @ [Attempted ''DP001'' TIMEOUT]" and stc = "?s"]
  from T a have loop: "retry_loop ?B demo_config ?data ''DP001'' (0 # [1, 2]) (journal new_bot)
      fresh_page = (Inr TIMEOUT, journal new_bot @ [Attempted ''DP001'' TIMEOUT], ?s)"
    by blast
  have "[0..<nat (MAX_RETRIES demo_config)] = 0 # [1, 2]"
    by (simp add: demo_config_def upt_rec)
  with loop have "retry_loop ?B demo_config ?data ''DP001'' [0..<nat (MAX_RETRIES demo_config)]
      (journal new_bot) fresh_page =
      (Inr TIMEOUT, journal new_bot @ [Attempted ''DP001'' TIMEOUT], ?s)"
    by simp
  with T m n have "process_item ?B demo_config demo_master ''DP001'' (new_bot, fresh_page) =
      (Continue, new_bot\<lparr>skipped := skipped new_bot + 1,
                         journal := journal new_bot @ [Attempted ''DP001'' TIMEOUT]\<rparr>,
       sleep 1000 ?s)"
    by blast
  then have "process_item ?B demo_config demo_master ''DP001'' (new_bot, fresh_page) =
      (Continue, new_bot\<lparr>skipped := 1, journal := [Attempted ''DP001'' TIMEOUT]\<rparr>,
       sleep 1000 ?s)"
    by (simp add: new_bot_def)
  with a m n show ?thesis by simp
qed



section \<open>Properties of the per-record sequence\<close>



















end
